theory Spec2Isabelle
  imports Complex_Main "HOL-Library.Word"
begin

section \<open>Strings\<close>

text \<open>
  A JavaScript string is a sequence of 16-bit code units; \<open>charCodeAt\<close> reads one of
  them. \<open>js\<close> turns an Isabelle literal into such a string, so that \<open>js ''A->B''\<close> is the
  title \<^verbatim>\<open>"A->B"\<close>.
\<close>

type_synonym code_unit = "16 word"
type_synonym jsstring = "code_unit list"

definition js :: "string \<Rightarrow> jsstring" where
  "js s = map of_char s"

text \<open>A string is falsy exactly when it is empty; \<open>null\<close> and \<open>undefined\<close> are \<open>None\<close>.\<close>

fun truthy :: "jsstring option \<Rightarrow> bool" where
  "truthy None = False"
| "truthy (Some s) = (s \<noteq> [])"

text \<open>\<open>v || d\<close> on an optional string.\<close>

fun orElse :: "jsstring option \<Rightarrow> jsstring \<Rightarrow> jsstring" where
  "orElse None d = d"
| "orElse (Some []) d = d"
| "orElse (Some (c # cs)) d = c # cs"

text \<open>
  \<open>String.prototype.trim\<close> removes the code units of WhiteSpace and LineTerminator from
  both ends.
\<close>

definition isWhiteSpace :: "code_unit \<Rightarrow> bool" where
  "isWhiteSpace c =
     (c \<in> set [0x09, 0x0A, 0x0B, 0x0C, 0x0D, 0x20, 0xA0, 0x1680, 0x2028, 0x2029,
                0x202F, 0x205F, 0x3000, 0xFEFF]
      \<or> (0x2000 \<le> c \<and> c \<le> 0x200A))"

definition trim :: "jsstring \<Rightarrow> jsstring" where
  "trim s = rev (dropWhile isWhiteSpace (rev (dropWhile isWhiteSpace s)))"

section \<open>Color classifier\<close>

text \<open>
  \<^verbatim>\<open>const TYPE_COLORS = [ "#ef4444", ..., "#6366f1" ]\<close> and
  \<^verbatim>\<open>
  const getTypeColor = (type: string) => {
    if (!type) return "#94a3b8";
    let hash = 0;
    for (let i = 0; i < type.length; i++) {
      hash = type.charCodeAt(i) + ((hash << 5) - hash);
    }
    const index = Math.abs(hash) % TYPE_COLORS.length;
    return TYPE_COLORS[index];
  };\<close>
  \<open>hash << 5\<close> converts \<open>hash\<close> to a signed 32-bit integer, shifts it and reads the
  result as a signed 32-bit integer again; the subtraction and the addition are on
  numbers, which are modelled as unbounded integers: for a label of fewer than \<open>2 ^ 21\<close>
  code units every value of \<open>hash\<close> stays below \<open>2 ^ 53\<close> in magnitude
  (\<open>hashLoop_bound\<close>), where the arithmetic of doubles is exact.
\<close>

definition TYPE_COLORS :: "jsstring list" where
  "TYPE_COLORS =
     [js ''#ef4444'', js ''#f97316'', js ''#84cc16'', js ''#10b981'', js ''#06b6d4'',
      js ''#3b82f6'', js ''#8b5cf6'', js ''#d946ef'', js ''#f43f5e'', js ''#6366f1'']"

definition UNTYPED_COLOR :: jsstring where
  "UNTYPED_COLOR = js ''#94a3b8''"

definition shl5 :: "int \<Rightarrow> int" where
  "shl5 h = sint (push_bit 5 (word_of_int h :: 32 word))"

fun hashLoop :: "int \<Rightarrow> jsstring \<Rightarrow> int" where
  "hashLoop hash [] = hash"
| "hashLoop hash (c # cs) = hashLoop (uint c + (shl5 hash - hash)) cs"

definition getTypeColor :: "jsstring option \<Rightarrow> jsstring" where
  "getTypeColor type =
     (if \<not> truthy type then UNTYPED_COLOR
      else let hash = hashLoop 0 (orElse type []);
               index = nat (\<bar>hash\<bar> mod int (length TYPE_COLORS))
           in TYPE_COLORS ! index)"

section \<open>Edge titles\<close>

text \<open>
  \<^verbatim>\<open>title.split(/-+>|--/)\<close>. \<open>sepMatch s\<close> is the length of the match of the regular
  expression anchored at the head of \<open>s\<close>: the first alternative takes the whole run of
  \<^verbatim>\<open>-\<close> and needs \<^verbatim>\<open>>\<close> right after it (giving back dashes cannot help, the
  next unit is then a dash), the second alternative takes two dashes.
\<close>

definition DASH :: code_unit where
  "DASH = 45"

definition GT :: code_unit where
  "GT = 62"

definition sepMatch :: "jsstring \<Rightarrow> nat option" where
  "sepMatch s =
     (let n = length (takeWhile (\<lambda>c. c = DASH) s)
      in if 1 \<le> n \<and> take 1 (drop n s) = [GT] then Some (Suc n)
         else if 2 \<le> n then Some 2
         else None)"

text \<open>
  The split loop of the language standard: \<open>cur\<close> is the text between the end of the last
  match (\<open>p\<close>) and the position under test (\<open>q\<close>); a match at \<open>q\<close> emits \<open>cur\<close> and
  continues after the match, no match moves \<open>q\<close> one unit on; the rest is emitted at the
  end. The expression has no capture group and never matches the empty string, so the
  empty title gives the one-element array \<^verbatim>\<open>[""]\<close>.
\<close>

function splitSep :: "jsstring \<Rightarrow> jsstring \<Rightarrow> jsstring list" where
  "splitSep cur [] = [cur]"
| "splitSep cur (c # cs) =
     (case sepMatch (c # cs) of
        None \<Rightarrow> splitSep (cur @ [c]) cs
      | Some k \<Rightarrow> cur # splitSep [] (drop k (c # cs)))"
  by pat_completeness auto
termination
  by (relation "measure (\<lambda>(cur, s). length s)")
     (auto simp: sepMatch_def Let_def split: if_splits)

definition split_title :: "jsstring \<Rightarrow> jsstring list" where
  "split_title title = splitSep [] title"

section \<open>Diagram parser: edges\<close>

text \<open>
  An edge-group as the parser reads it: the text of its \<open>title\<close> child and of its
  \<open>text\<close> child, each absent when \<open>querySelector\<close> finds none.
\<close>

record edge_group =
  eg_title :: "jsstring option"
  eg_text :: "jsstring option"

text \<open>
  The interface \<open>GraphEdge\<close> of the source; its fields \<open>id\<close>, \<open>source\<close>, \<open>target\<close>,
  \<open>label\<close> and \<open>displayColor\<close> carry the prefix \<open>e_\<close> here.
\<close>

record GraphEdge =
  e_id :: jsstring
  e_source :: jsstring
  e_target :: jsstring
  e_label :: "jsstring option"
  e_displayColor :: "jsstring option"

text \<open>
  \<^verbatim>\<open>
  const title = el.querySelector('title')?.textContent || '';
  const parts = title.split(/-+>|--/);
  const textEl = el.querySelector('text');
  const label = textEl ? textEl.textContent?.trim() : undefined;
  const displayColor = getTypeColor(label || '');
  if (parts.length >= 2) {
    edges.push({ id: title, source: parts[0], target: parts[1], label, displayColor });
  }\<close>
\<close>

definition extractEdge :: "edge_group \<Rightarrow> GraphEdge option" where
  "extractEdge el =
     (let title = orElse (eg_title el) [];
          parts = split_title title;
          label = map_option trim (eg_text el);
          displayColor = getTypeColor (Some (orElse label []))
      in case parts of
           p0 # p1 # _ \<Rightarrow>
             Some \<lparr>e_id = title, e_source = p0, e_target = p1, e_label = label,
                   e_displayColor = Some displayColor\<rparr>
         | _ \<Rightarrow> None)"

fun extractEdges :: "edge_group list \<Rightarrow> GraphEdge list" where
  "extractEdges [] = []"
| "extractEdges (el # els) =
     (case extractEdge el of
        None \<Rightarrow> extractEdges els
      | Some e \<Rightarrow> e # extractEdges els)"

section \<open>Diagram parser: nodes\<close>

text \<open>
  A child element is the map of its attributes (\<open>getAttribute\<close>). A number is a
  double: \<open>NaN\<close>, one of the two infinities, or a finite value, which is a real here
  (the two zeros are one value). \<open>parseFloat\<close> and the rewriting of a polygon's point
  list (split at blanks and commas, offsets from the centre, the largest distance,
  printing of the offsets) are parameters of the parser, \<open>pf\<close> and \<open>rp\<close>.
\<close>

type_synonym element = "string \<rightharpoonup> jsstring"

datatype num = NaN | NegInf | PosInf | Fin real

text \<open>\<open>a < b\<close> on numbers: false when one of them is \<open>NaN\<close>.\<close>

fun num_lt :: "num \<Rightarrow> num \<Rightarrow> bool" where
  "num_lt NaN b = False"
| "num_lt a NaN = False"
| "num_lt a NegInf = False"
| "num_lt NegInf b = True"
| "num_lt PosInf b = False"
| "num_lt (Fin a) PosInf = True"
| "num_lt (Fin a) (Fin b) = (a < b)"

record node_group =
  ng_title :: "jsstring option"
  ng_text :: "element option"
  ng_ellipse :: "element option"
  ng_polygon :: "element option"
  ng_path :: "element option"

datatype shape_kind = ellipse | polygon

record shape_data =
  sd_rx :: "num option"
  sd_ry :: "num option"
  sd_points :: "jsstring option"
  sd_radius :: "num option"

text \<open>The interface \<open>GraphNode\<close>; its fields carry the prefix \<open>n_\<close>.\<close>

record GraphNode =
  n_id :: jsstring
  n_name :: jsstring
  n_color :: "jsstring option"
  n_fillcolor :: "jsstring option"
  n_x :: num
  n_y :: num
  n_shapeType :: shape_kind
  n_shapeData :: shape_data

text \<open>\<open>v || undefined\<close>.\<close>

fun orUndefined :: "jsstring option \<Rightarrow> jsstring option" where
  "orUndefined None = None"
| "orUndefined (Some []) = None"
| "orUndefined (Some (c # cs)) = Some (c # cs)"

text \<open>\<open>a || b\<close> on elements that may be \<open>null\<close>.\<close>

fun orEl :: "element option \<Rightarrow> element option \<Rightarrow> element option" where
  "orEl None b = b"
| "orEl (Some a) b = Some a"

text \<open>\<open>Math.max\<close> of two numbers is \<open>NaN\<close> when one of them is.\<close>

definition num_max :: "num \<Rightarrow> num \<Rightarrow> num" where
  "num_max a b = (if a = NaN \<or> b = NaN then NaN else if num_lt a b then b else a)"

definition attrOr :: "element \<Rightarrow> string \<Rightarrow> string \<Rightarrow> jsstring" where
  "attrOr el a d = orElse (el a) (js d)"

definition nodeCenter :: "(jsstring \<Rightarrow> num) \<Rightarrow> node_group \<Rightarrow> num \<times> num" where
  "nodeCenter pf el =
     (case ng_text el of
        Some textEl \<Rightarrow> (pf (attrOr textEl ''x'' ''0''), pf (attrOr textEl ''y'' ''0''))
      | None \<Rightarrow>
          (case ng_ellipse el of
             Some ellipseEl \<Rightarrow>
               (pf (attrOr ellipseEl ''cx'' ''0''), pf (attrOr ellipseEl ''cy'' ''0''))
           | None \<Rightarrow> (Fin 0, Fin 0)))"

definition nodeShape ::
  "(jsstring \<Rightarrow> num) \<Rightarrow> (jsstring \<Rightarrow> num \<Rightarrow> num \<Rightarrow> jsstring \<times> num) \<Rightarrow> node_group \<Rightarrow>
   num \<times> num \<Rightarrow> shape_kind \<times> shape_data" where
  "nodeShape pf rp el c =
     (case ng_polygon el of
        Some polygonEl \<Rightarrow>
          (let rawPoints = orElse (polygonEl ''points'') [];
               (relativePoints, maxDist) = rp rawPoints (fst c) (snd c)
           in (polygon, \<lparr>sd_rx = None, sd_ry = None, sd_points = Some relativePoints,
                         sd_radius = Some maxDist\<rparr>))
      | None \<Rightarrow>
          (case ng_ellipse el of
             Some ellipseEl \<Rightarrow>
               (let rx = pf (attrOr ellipseEl ''rx'' ''27'');
                    ry = pf (attrOr ellipseEl ''ry'' ''18'')
                in (ellipse, \<lparr>sd_rx = Some rx, sd_ry = Some ry, sd_points = None,
                              sd_radius = Some (num_max rx ry)\<rparr>))
           | None \<Rightarrow>
               (ellipse, \<lparr>sd_rx = Some (Fin 27), sd_ry = Some (Fin 18), sd_points = None,
                          sd_radius = Some (Fin 30)\<rparr>)))"

definition extractNode ::
  "(jsstring \<Rightarrow> num) \<Rightarrow> (jsstring \<Rightarrow> num \<Rightarrow> num \<Rightarrow> jsstring \<times> num) \<Rightarrow> node_group \<Rightarrow>
   GraphNode" where
  "extractNode pf rp el =
     (let title = orElse (ng_title el) [];
          c = nodeCenter pf el;
          mainShape = orEl (ng_polygon el) (orEl (ng_ellipse el) (ng_path el));
          fill = (case mainShape of None \<Rightarrow> None | Some m \<Rightarrow> m ''fill'');
          stroke = (case mainShape of None \<Rightarrow> None | Some m \<Rightarrow> m ''stroke'');
          (shapeType, shapeData) = nodeShape pf rp el c
      in \<lparr>n_id = title, n_name = title, n_color = orUndefined stroke,
          n_fillcolor = orUndefined fill, n_x = fst c, n_y = snd c,
          n_shapeType = shapeType, n_shapeData = shapeData\<rparr>)"

text \<open>\<open>forEach\<close> pushes one node for each element of \<open>querySelectorAll('.node')\<close>.\<close>

fun extractNodes ::
  "(jsstring \<Rightarrow> num) \<Rightarrow> (jsstring \<Rightarrow> num \<Rightarrow> num \<Rightarrow> jsstring \<times> num) \<Rightarrow> node_group list \<Rightarrow>
   GraphNode list" where
  "extractNodes pf rp [] = []"
| "extractNodes pf rp (el # els) = extractNode pf rp el # extractNodes pf rp els"

section \<open>Diagram parser: the parse effect\<close>

text \<open>
  The document that \<open>DOMParser\<close> returns, as far as the effects read it: whether it
  has an \<open>svg\<close> element (then its root), the \<open>viewBox\<close> of that element, the
  \<open>transform\<close> of \<open>g.graph\<close>, the elements of class \<open>node\<close> and those of class
  \<open>edge\<close>, in document order. Empty \<open>svgContent\<close> is \<open>None\<close>.
\<close>

record document =
  doc_svg :: bool
  doc_viewBox :: "jsstring option"
  doc_transform :: "jsstring option"
  doc_nodes :: "node_group list"
  doc_edges :: "edge_group list"

record ParsedLayout =
  nodes :: "GraphNode list"
  edges :: "GraphEdge list"
  viewBox :: jsstring
  transform :: jsstring

definition parse ::
  "(jsstring \<Rightarrow> num) \<Rightarrow> (jsstring \<Rightarrow> num \<Rightarrow> num \<Rightarrow> jsstring \<times> num) \<Rightarrow> document option \<Rightarrow>
   ParsedLayout option" where
  "parse pf rp svgContent =
     (case svgContent of
        None \<Rightarrow> None
      | Some doc \<Rightarrow>
          Some \<lparr>nodes = extractNodes pf rp (doc_nodes doc),
                edges = extractEdges (doc_edges doc),
                viewBox = orElse (if doc_svg doc then doc_viewBox doc else None)
                            (js ''0 0 100 100''),
                transform = orElse (doc_transform doc) []\<rparr>)"

section \<open>Arithmetic of doubles\<close>

text \<open>
  The result of an operation on finite doubles is the exact result rounded to the
  nearest double. The rounding of a result within the range of the doubles is the
  parameter \<open>rnd\<close> of every operation here; a result of magnitude \<open>2 ^ 1024 - 2 ^ 970\<close>
  or more, halfway from the largest double to \<open>2 ^ 1024\<close>, becomes an infinity.
\<close>

definition DBL_OVERFLOW :: real where
  "DBL_OVERFLOW = 2 ^ 1024 - 2 ^ 970"

definition double_of :: "(real \<Rightarrow> real) \<Rightarrow> real \<Rightarrow> num" where
  "double_of rnd r =
     (if DBL_OVERFLOW \<le> r then PosInf
      else if r \<le> - DBL_OVERFLOW then NegInf
      else Fin (rnd r))"

fun num_neg :: "num \<Rightarrow> num" where
  "num_neg NaN = NaN"
| "num_neg NegInf = PosInf"
| "num_neg PosInf = NegInf"
| "num_neg (Fin a) = Fin (- a)"

text \<open>\<open>a + b\<close>: the sum of the two infinities is \<open>NaN\<close>.\<close>

fun num_add :: "(real \<Rightarrow> real) \<Rightarrow> num \<Rightarrow> num \<Rightarrow> num" where
  "num_add rnd NaN b = NaN"
| "num_add rnd a NaN = NaN"
| "num_add rnd (Fin a) (Fin b) = double_of rnd (a + b)"
| "num_add rnd (Fin a) b = b"
| "num_add rnd a (Fin b) = a"
| "num_add rnd a b = (if a = b then a else NaN)"

text \<open>\<open>a - b\<close> is \<open>a + (- b)\<close>.\<close>

definition num_sub :: "(real \<Rightarrow> real) \<Rightarrow> num \<Rightarrow> num \<Rightarrow> num" where
  "num_sub rnd a b = num_add rnd a (num_neg b)"

text \<open>\<open>a * b\<close>: an infinity times zero is \<open>NaN\<close>, otherwise the signs multiply.\<close>

fun num_sgn :: "num \<Rightarrow> int" where
  "num_sgn NaN = 0"
| "num_sgn NegInf = - 1"
| "num_sgn PosInf = 1"
| "num_sgn (Fin a) = (if a < 0 then - 1 else if a = 0 then 0 else 1)"

fun num_mul :: "(real \<Rightarrow> real) \<Rightarrow> num \<Rightarrow> num \<Rightarrow> num" where
  "num_mul rnd NaN b = NaN"
| "num_mul rnd a NaN = NaN"
| "num_mul rnd (Fin a) (Fin b) = double_of rnd (a * b)"
| "num_mul rnd a b =
     (if num_sgn a * num_sgn b = 0 then NaN
      else if 0 < num_sgn a * num_sgn b then PosInf
      else NegInf)"

text \<open>\<open>a / 2\<close>.\<close>

fun num_div2 :: "(real \<Rightarrow> real) \<Rightarrow> num \<Rightarrow> num" where
  "num_div2 rnd (Fin a) = double_of rnd (a / 2)"
| "num_div2 rnd a = a"

section \<open>Fancy mode: setup of the simulation nodes\<close>

text \<open>
  \<^verbatim>\<open>
  let minX = Infinity, maxX = -Infinity, minY = Infinity, maxY = -Infinity;
  layoutData.nodes.forEach(n => {
      const x = n.x || 0;
      const y = n.y || 0;
      if (x < minX) minX = x;
      if (x > maxX) maxX = x;
      if (y < minY) minY = y;
      if (y > maxY) maxY = y;
  });
  const centerX = (minX + maxX) / 2;
  const centerY = (minY + maxY) / 2;
  const FANCY_SCALE_FACTOR = 0.5;\<close>
  \<open>v || 0\<close> on a number: \<open>NaN\<close> and zero give zero. The parser sets \<open>x\<close> and \<open>y\<close> of
  every node, so they are never \<open>undefined\<close>.
\<close>

fun orZero :: "num \<Rightarrow> num" where
  "orZero NaN = Fin 0"
| "orZero v = v"

record bbox =
  minX :: num
  maxX :: num
  minY :: num
  maxY :: num

fun bboxLoop :: "bbox \<Rightarrow> GraphNode list \<Rightarrow> bbox" where
  "bboxLoop b [] = b"
| "bboxLoop b (n # ns) =
     (let x = orZero (n_x n);
          y = orZero (n_y n);
          b1 = (if num_lt x (minX b) then b\<lparr>minX := x\<rparr> else b);
          b2 = (if num_lt (maxX b1) x then b1\<lparr>maxX := x\<rparr> else b1);
          b3 = (if num_lt y (minY b2) then b2\<lparr>minY := y\<rparr> else b2);
          b4 = (if num_lt (maxY b3) y then b3\<lparr>maxY := y\<rparr> else b3)
      in bboxLoop b4 ns)"

definition center :: "(real \<Rightarrow> real) \<Rightarrow> num \<Rightarrow> num \<Rightarrow> num" where
  "center rnd lo hi = num_div2 rnd (num_add rnd lo hi)"

definition FANCY_SCALE_FACTOR :: num where
  "FANCY_SCALE_FACTOR = Fin 0.5"

text \<open>
  A simulation node: the copy \<open>...n\<close> with \<open>x\<close> and \<open>y\<close> overwritten, and the pin
  (\<open>fx\<close>, \<open>fy\<close>; \<open>null\<close> is \<open>None\<close>) and the origin added.
  \<^verbatim>\<open>
  const scaledX = centerX + (originalX - centerX) * FANCY_SCALE_FACTOR;
  const scaledY = centerY + (originalY - centerY) * FANCY_SCALE_FACTOR;
  return { ...n, x: scaledX, y: scaledY, fx: scaledX, fy: scaledY,
           originX: scaledX, originY: scaledY };\<close>
\<close>

record sim_node =
  sn_node :: GraphNode
  fx :: "num option"
  fy :: "num option"
  originX :: num
  originY :: num

definition scaled :: "(real \<Rightarrow> real) \<Rightarrow> num \<Rightarrow> num \<Rightarrow> num" where
  "scaled rnd c original =
     num_add rnd c (num_mul rnd (num_sub rnd original c) FANCY_SCALE_FACTOR)"

definition simNode :: "(real \<Rightarrow> real) \<Rightarrow> num \<Rightarrow> num \<Rightarrow> GraphNode \<Rightarrow> sim_node" where
  "simNode rnd centerX centerY n =
     (let originalX = orZero (n_x n);
          originalY = orZero (n_y n);
          scaledX = scaled rnd centerX originalX;
          scaledY = scaled rnd centerY originalY
      in \<lparr>sn_node = n\<lparr>n_x := scaledX, n_y := scaledY\<rparr>,
          fx = Some scaledX, fy = Some scaledY,
          originX = scaledX, originY = scaledY\<rparr>)"

definition simNodes :: "(real \<Rightarrow> real) \<Rightarrow> GraphNode list \<Rightarrow> sim_node list" where
  "simNodes rnd ns =
     (let b = bboxLoop \<lparr>minX = PosInf, maxX = NegInf, minY = PosInf, maxY = NegInf\<rparr> ns;
          centerX = center rnd (minX b) (maxX b);
          centerY = center rnd (minY b) (maxY b)
      in map (simNode rnd centerX centerY) ns)"

section \<open>The mounted diagram\<close>

text \<open>
  What the effects and the imperative handle read and write of the mounted \<open>svg\<close>
  element. A node element is a group of class \<open>node\<close> (static mode) or \<open>fancy-node\<close>
  (fancy mode). Its key \<open>nd_key\<close> is, in static mode, the text of its \<open>title\<close> child
  (\<open>None\<close>: it has no such child) and, in fancy mode, the \<open>id\<close> of the datum bound to it.
  \<open>nd_screen\<close> is the centre of the group's bounding box taken through \<open>getScreenCTM\<close>,
  relative to the rectangle of the \<open>svg\<close> (\<open>None\<close>: \<open>getScreenCTM\<close> gave \<open>null\<close>). An edge
  element is a group of class \<open>edge\<close> with the text of its \<open>title\<close> child (static mode)
  or a \<open>line\<close> whose datum has the two end nodes with ids \<open>ed_source\<close> and \<open>ed_target\<close>
  (fancy mode).
\<close>

datatype error = TypeError | NodeNotFound

record dom_node =
  nd_key :: "jsstring option"
  nd_screen :: "(real \<times> real) option"
  nd_selected :: bool
  nd_connected :: bool
  nd_opacity :: "real option"

record dom_edge =
  ed_title :: "jsstring option"
  ed_source :: jsstring
  ed_target :: jsstring
  ed_connected :: bool
  ed_opacity :: "real option"
  ed_strokeWidth :: "real option"

record ZoomTransform =
  t_k :: real
  t_x :: real
  t_y :: real

definition zoomIdentity :: ZoomTransform where
  "zoomIdentity = \<lparr>t_k = 1, t_x = 0, t_y = 0\<rparr>"

record svg =
  sv_nodes :: "dom_node list"
  sv_fancy_nodes :: "dom_node list"
  sv_edges :: "dom_edge list"
  sv_lines :: "dom_edge list"
  sv_has_selection :: bool
  sv_zoom :: ZoomTransform
  sv_width :: real
  sv_height :: real

text \<open>
  \<open>selection.text()\<close> and \<open>selection.datum()\<close> of the d3 library read a property of
  \<open>selection.node()\<close>, which is \<open>null\<close> on an empty selection: the read then throws a
  \<open>TypeError\<close>. \<open>NodeNotFound\<close> is the error that \<open>d3.forceLink\<close> throws for a link
  whose source or target is the id of no node.
\<close>

definition titleText :: "jsstring option \<Rightarrow> error + jsstring" where
  "titleText t = (case t of None \<Rightarrow> Inl TypeError | Some s \<Rightarrow> Inr s)"

definition datum :: "'a list \<Rightarrow> error + 'a" where
  "datum sel = (case sel of [] \<Rightarrow> Inl TypeError | d # _ \<Rightarrow> Inr d)"

text \<open>
  \<open>selection.filter(p)\<close> followed by a change of the elements kept: \<open>p\<close> runs on every
  element in order, and an exception in it leaves the handler.
\<close>

fun updE :: "('a \<Rightarrow> error + bool) \<Rightarrow> ('a \<Rightarrow> 'a) \<Rightarrow> 'a list \<Rightarrow> error + 'a list" where
  "updE p f [] = Inr []"
| "updE p f (x # xs) =
     (case p x of
        Inl e \<Rightarrow> Inl e
      | Inr b \<Rightarrow>
          (case updE p f xs of
             Inl e \<Rightarrow> Inl e
           | Inr ys \<Rightarrow> Inr ((if b then f x else x) # ys)))"

fun filterE :: "('a \<Rightarrow> error + bool) \<Rightarrow> 'a list \<Rightarrow> error + 'a list" where
  "filterE p [] = Inr []"
| "filterE p (x # xs) =
     (case p x of
        Inl e \<Rightarrow> Inl e
      | Inr b \<Rightarrow>
          (case filterE p xs of
             Inl e \<Rightarrow> Inl e
           | Inr ys \<Rightarrow> Inr (if b then x # ys else ys)))"

section \<open>Selection highlighting\<close>

text \<open>
  \<^verbatim>\<open>
  const nodeSelector = isFancyMode ? '.fancy-node' : '.node';
  const edgeSelector = isFancyMode ? 'line' : '.edge';\<close>
\<close>

definition selNodes :: "bool \<Rightarrow> svg \<Rightarrow> dom_node list" where
  "selNodes isFancyMode s = (if isFancyMode then sv_fancy_nodes s else sv_nodes s)"

definition putNodes :: "bool \<Rightarrow> dom_node list \<Rightarrow> svg \<Rightarrow> svg" where
  "putNodes isFancyMode ns s =
     (if isFancyMode then s\<lparr>sv_fancy_nodes := ns\<rparr> else s\<lparr>sv_nodes := ns\<rparr>)"

definition selEdges :: "bool \<Rightarrow> svg \<Rightarrow> dom_edge list" where
  "selEdges isFancyMode s = (if isFancyMode then sv_lines s else sv_edges s)"

definition putEdges :: "bool \<Rightarrow> dom_edge list \<Rightarrow> svg \<Rightarrow> svg" where
  "putEdges isFancyMode es s =
     (if isFancyMode then s\<lparr>sv_lines := es\<rparr> else s\<lparr>sv_edges := es\<rparr>)"

text \<open>
  \<^verbatim>\<open>isFancyMode ? d.id : d3.select(this).select('title').text()\<close> tested with \<open>p\<close>.
\<close>

definition nodeHas :: "bool \<Rightarrow> (jsstring \<Rightarrow> bool) \<Rightarrow> dom_node \<Rightarrow> error + bool" where
  "nodeHas isFancyMode p n =
     (if isFancyMode then Inr (case nd_key n of None \<Rightarrow> False | Some i \<Rightarrow> p i)
      else case titleText (nd_key n) of Inl e \<Rightarrow> Inl e | Inr t \<Rightarrow> Inr (p t))"

text \<open>
  \<^verbatim>\<open>
  const connectedNodes = new Set<string>();
  edges.forEach(e => {
    if (e.source === selectedNodeId) connectedNodes.add(e.target);
    if (e.target === selectedNodeId) connectedNodes.add(e.source);
  });\<close>
\<close>

fun connectedLoop :: "jsstring \<Rightarrow> jsstring set \<Rightarrow> GraphEdge list \<Rightarrow> jsstring set" where
  "connectedLoop S connectedNodes [] = connectedNodes"
| "connectedLoop S connectedNodes (e # es) =
     (let c1 = (if e_source e = S then insert (e_target e) connectedNodes
                else connectedNodes);
          c2 = (if e_target e = S then insert (e_source e) c1 else c1)
      in connectedLoop S c2 es)"

definition edgeHas :: "bool \<Rightarrow> jsstring \<Rightarrow> dom_edge \<Rightarrow> error + bool" where
  "edgeHas isFancyMode S e =
     (if isFancyMode then Inr (ed_source e = S \<or> ed_target e = S)
      else case titleText (ed_title e) of
             Inl err \<Rightarrow> Inl err
           | Inr title \<Rightarrow> Inr (S \<in> set (split_title title)))"

definition clearNode :: "dom_node \<Rightarrow> dom_node" where
  "clearNode n = n\<lparr>nd_selected := False, nd_connected := False, nd_opacity := None\<rparr>"

definition clearEdge :: "dom_edge \<Rightarrow> dom_edge" where
  "clearEdge e = e\<lparr>ed_connected := False, ed_opacity := None\<rparr>"

definition markSelected :: "dom_node \<Rightarrow> dom_node" where
  "markSelected n = n\<lparr>nd_selected := True, nd_opacity := Some 1\<rparr>"

definition markConnected :: "dom_node \<Rightarrow> dom_node" where
  "markConnected n = n\<lparr>nd_connected := True, nd_opacity := Some 1\<rparr>"

definition markEdge :: "bool \<Rightarrow> dom_edge \<Rightarrow> dom_edge" where
  "markEdge isFancyMode e =
     (if isFancyMode
      then e\<lparr>ed_connected := True, ed_opacity := Some 1, ed_strokeWidth := Some 3\<rparr>
      else e\<lparr>ed_connected := True, ed_opacity := Some 1\<rparr>)"

text \<open>
  The effect "Handle Selection Highlighting": it returns at once without a mounted
  \<open>svg\<close>; it clears the marks; under a truthy \<open>selectedNodeId\<close> it dims every node
  and edge, marks the selected node, collects \<open>connectedNodes\<close> from
  \<open>layoutData?.edges || []\<close>, marks the connected nodes and then the connected edges;
  otherwise it resets the stroke width of the lines in fancy mode.
\<close>

definition highlight ::
  "bool \<Rightarrow> jsstring option \<Rightarrow> ParsedLayout option \<Rightarrow> svg option \<Rightarrow> error + svg option" where
  "highlight isFancyMode selectedNodeId layoutData svgRef =
     (case svgRef of
        None \<Rightarrow> Inr None
      | Some s \<Rightarrow>
          (let ns0 = map clearNode (selNodes isFancyMode s);
               es0 = map clearEdge (selEdges isFancyMode s);
               s0 = s\<lparr>sv_has_selection := truthy selectedNodeId\<rparr>
           in if truthy selectedNodeId
              then
                (let S = orElse selectedNodeId [];
                     ns1 = map (\<lambda>n. n\<lparr>nd_opacity := Some 0.1\<rparr>) ns0;
                     es1 = map (\<lambda>e. e\<lparr>ed_opacity := Some 0.1\<rparr>) es0
                 in case updE (nodeHas isFancyMode (\<lambda>i. i = S)) markSelected ns1 of
                      Inl err \<Rightarrow> Inl err
                    | Inr ns2 \<Rightarrow>
                        (let es = (case layoutData of None \<Rightarrow> [] | Some l \<Rightarrow> edges l);
                             connectedNodes = connectedLoop S {} es
                         in case updE (nodeHas isFancyMode (\<lambda>i. i \<in> connectedNodes))
                                   markConnected ns2 of
                              Inl err \<Rightarrow> Inl err
                            | Inr ns3 \<Rightarrow>
                                (case updE (edgeHas isFancyMode S) (markEdge isFancyMode)
                                        es1 of
                                   Inl err \<Rightarrow> Inl err
                                 | Inr es2 \<Rightarrow>
                                     Inr (Some (putEdges isFancyMode es2
                                                  (putNodes isFancyMode ns3 s0))))))
              else
                (let es1 = (if isFancyMode
                            then map (\<lambda>e. e\<lparr>ed_strokeWidth := Some 2\<rparr>) es0
                            else es0)
                 in Inr (Some (putEdges isFancyMode es1 (putNodes isFancyMode ns0 s0))))))"

section \<open>Selection toggle\<close>

text \<open>
  \<^verbatim>\<open>
  const handleNodeToggle = (nodeName: string | null) => {
    if (nodeName === selectedNodeId) {
      setSelectedNodeId(null);
    } else {
      setSelectedNodeId(nodeName);
    }
  };\<close>
  The function returns the next value of the state \<open>selectedNodeId\<close>.
\<close>

definition handleNodeToggle :: "jsstring option \<Rightarrow> jsstring option \<Rightarrow> jsstring option" where
  "handleNodeToggle nodeName selectedNodeId =
     (if nodeName = selectedNodeId then None else nodeName)"

text \<open>
  \<open>handleNodeToggle\<close> is made anew in every render of \<open>App\<close> and closes over the
  \<open>selectedNodeId\<close> of that render. The sidebar gets it as the prop \<open>onSelectNode\<close> and
  calls the one of the latest render. The diagram gets it as the prop \<open>onNodeClick\<close>:
  the render effect of the viewer, which runs when \<open>layoutData\<close> or \<open>isFancyMode\<close>
  changes, installs the click listeners
  \<^verbatim>\<open>
  node.on('click', function(event, d) { ...; event.stopPropagation(); onNodeClick(d.id); });
  svg.on('click', () => onNodeClick(null));\<close>
  (and their like in static mode), and these keep the \<open>onNodeClick\<close> of the render in
  which the effect ran. The state here is the \<open>selectedNodeId\<close> of \<open>App\<close> and the
  \<open>selectedNodeId\<close> that the installed listeners close over.
\<close>

record app =
  app_selectedNodeId :: "jsstring option"
  app_listenerSelectedNodeId :: "jsstring option"

definition installListeners :: "app \<Rightarrow> app" where
  "installListeners a = a\<lparr>app_listenerSelectedNodeId := app_selectedNodeId a\<rparr>"

definition sidebarClick :: "jsstring option \<Rightarrow> app \<Rightarrow> app" where
  "sidebarClick nodeName a =
     a\<lparr>app_selectedNodeId := handleNodeToggle nodeName (app_selectedNodeId a)\<rparr>"

definition diagramClick :: "jsstring option \<Rightarrow> app \<Rightarrow> app" where
  "diagramClick nodeName a =
     a\<lparr>app_selectedNodeId := handleNodeToggle nodeName (app_listenerSelectedNodeId a)\<rparr>"

section \<open>View transform\<close>

text \<open>
  The refs of the component that the zoom operations use. \<open>exports\<close> counts the image
  loads that \<open>exportAsPng\<close> has started.
\<close>

record ZoomBehavior =
  scaleExtent :: "real \<times> real"

record viewer =
  svgRef :: "svg option"
  zoomBehaviorRef :: "ZoomBehavior option"
  savedTransform :: ZoomTransform
  exports :: nat

definition initialViewer :: viewer where
  "initialViewer =
     \<lparr>svgRef = None, zoomBehaviorRef = None, savedTransform = zoomIdentity, exports = 0\<rparr>"

text \<open>
  Modelled from the spec: \<open>scaleBy\<close> of the zoom behaviour belongs to the d3 library,
  which is not part of the sources. Section 4.3 of the specification gives its effect:
  the scale is multiplied by the factor around a focal point, which keeps its place on
  the screen, and is clamped to the scale extent. A transition is represented by the
  transform it ends in.
\<close>

definition d3_scaleBy ::
  "ZoomBehavior \<Rightarrow> ZoomTransform \<Rightarrow> real \<Rightarrow> real \<times> real \<Rightarrow> ZoomTransform" where
  "d3_scaleBy zoom t factor p =
     (let p1 = ((fst p - t_x t) / t_k t, (snd p - t_y t) / t_k t);
          k1 = max (fst (scaleExtent zoom)) (min (snd (scaleExtent zoom)) (t_k t * factor))
      in \<lparr>t_k = k1, t_x = fst p - fst p1 * k1, t_y = snd p - snd p1 * k1\<rparr>)"

text \<open>
  Modelled from the spec: \<open>translateBy\<close> of the zoom behaviour, also of the d3 library.
  Section 4.3 of the specification: a pan translates by a fixed step; the step is in the
  coordinates of the diagram, so it is multiplied by the scale, and the scale stays.
\<close>

definition d3_translateBy :: "ZoomTransform \<Rightarrow> real \<Rightarrow> real \<Rightarrow> ZoomTransform" where
  "d3_translateBy t dx dy = t\<lparr>t_x := t_x t + t_k t * dx, t_y := t_y t + t_k t * dy\<rparr>"

text \<open>
  The listener \<^verbatim>\<open>.on('zoom', ...)\<close> of \<open>setupZoom\<close> runs on every change of the
  transform of the \<open>svg\<close>: \<^verbatim>\<open>savedTransform.current = event.transform\<close>.
\<close>

definition zoomed :: "viewer \<Rightarrow> svg \<Rightarrow> ZoomTransform \<Rightarrow> viewer" where
  "zoomed v s t = v\<lparr>svgRef := Some (s\<lparr>sv_zoom := t\<rparr>), savedTransform := t\<rparr>"

text \<open>
  \<^verbatim>\<open>
  const zoom = d3.zoom().scaleExtent([0.01, 200]).filter(...).on('zoom', ...);
  svgSelection.call(zoom);
  svgSelection.call(zoom.transform, savedTransform.current);
  zoomBehaviorRef.current = zoom;\<close>
  The render effect sets \<open>svgRef.current\<close> to the new element and calls \<open>setupZoom\<close>.
  \<open>zoom.transform\<close> of the library makes the given transform the transform of the
  \<open>svg\<close> as it is, without the scale extent (section 4.3 of the specification: the
  last applied transform is reapplied verbatim), and the listener above runs.
\<close>

definition setupZoom :: "svg \<Rightarrow> viewer \<Rightarrow> viewer" where
  "setupZoom svgSelection v =
     (let zoom = \<lparr>scaleExtent = (0.01, 200)\<rparr>;
          v1 = zoomed v svgSelection (savedTransform v)
      in v1\<lparr>zoomBehaviorRef := Some zoom\<rparr>)"

definition render :: "svg \<Rightarrow> viewer \<Rightarrow> viewer" where
  "render s v = setupZoom s (v\<lparr>svgRef := Some s\<rparr>)"

text \<open>
  \<^verbatim>\<open>
  .filter((event) => {
    if (event.type === 'wheel') {
      return !selectedNodeIdRef.current;
    }
    return !event.button;
  })\<close>
\<close>

record dom_event =
  ev_type :: string
  ev_button :: nat
  ev_deltaY :: real
  ev_pointer :: "real \<times> real"

definition zoomFilter :: "jsstring option \<Rightarrow> dom_event \<Rightarrow> bool" where
  "zoomFilter selectedNodeIdRef event =
     (if ev_type event = ''wheel'' then \<not> truthy selectedNodeIdRef
      else ev_button event = 0)"

datatype direction = In | Out

text \<open>
  The focal point of \<open>performZoom\<close> under a truthy \<open>selectedNodeId\<close>. In fancy mode the
  datum of the selected node is read and \<open>found\<close> is set, but \<open>cx\<close> and \<open>cy\<close> are not
  assigned. In static mode the first node whose title is \<open>selectedNodeId\<close> gives its
  screen centre, if there is one and \<open>getScreenCTM\<close> is not \<open>null\<close>.
\<close>

definition focalPoint ::
  "bool \<Rightarrow> jsstring \<Rightarrow> svg \<Rightarrow> real \<times> real \<Rightarrow> error + real \<times> real" where
  "focalPoint isFancyMode S s c =
     (if isFancyMode
      then (case datum (filter (\<lambda>d. nd_key d = Some S) (sv_fancy_nodes s)) of
              Inl e \<Rightarrow> Inl e
            | Inr nodeData \<Rightarrow> Inr c)
      else (case filterE (nodeHas False (\<lambda>t. t = S)) (sv_nodes s) of
              Inl e \<Rightarrow> Inl e
            | Inr [] \<Rightarrow> Inr c
            | Inr (nodeEl # _) \<Rightarrow>
                (case nd_screen nodeEl of None \<Rightarrow> Inr c | Some sc \<Rightarrow> Inr sc)))"

definition performZoom ::
  "direction \<Rightarrow> bool \<Rightarrow> jsstring option \<Rightarrow> viewer \<Rightarrow> error + viewer" where
  "performZoom direction isFancyMode selectedNodeId v =
     (case (svgRef v, zoomBehaviorRef v) of
        (Some s, Some zoom) \<Rightarrow>
          (let width = sv_width s;
               height = sv_height s;
               c = (width / 2, height / 2);
               scaleFactor = (if direction = In then 1.3 else 1 / 1.3)
           in case (if truthy selectedNodeId
                    then focalPoint isFancyMode (orElse selectedNodeId []) s c
                    else Inr c) of
                Inl e \<Rightarrow> Inl e
              | Inr p \<Rightarrow> Inr (zoomed v s (d3_scaleBy zoom (sv_zoom s) scaleFactor p)))
      | _ \<Rightarrow> Inr v)"

text \<open>
  \<^verbatim>\<open>
  const handleWheel = (e: React.WheelEvent) => {
    if (selectedNodeId) {
      if (e.deltaY < 0) performZoom('in');
      else performZoom('out');
    }
  };\<close>
\<close>

definition handleWheel ::
  "bool \<Rightarrow> jsstring option \<Rightarrow> dom_event \<Rightarrow> viewer \<Rightarrow> error + viewer" where
  "handleWheel isFancyMode selectedNodeId e v =
     (if truthy selectedNodeId
      then (if ev_deltaY e < 0 then performZoom In isFancyMode selectedNodeId v
            else performZoom Out isFancyMode selectedNodeId v)
      else Inr v)"

text \<open>
  Modelled from the spec: the wheel listener that \<open>svgSelection.call(zoom)\<close> installs
  on the \<open>svg\<close> is code of the d3 library. Section 4.3 of the specification: wheel-driven
  zoom is gated, here by the filter of \<open>setupZoom\<close>. An event that passes the filter
  rescales around the pointer, by the factor \<open>wheelFactor event\<close> that the library
  computes from the event (a parameter here), and goes no further; an event that does
  not pass is left alone.
\<close>

definition d3_wheeled ::
  "(dom_event \<Rightarrow> real) \<Rightarrow> jsstring option \<Rightarrow> dom_event \<Rightarrow> viewer \<Rightarrow> viewer option" where
  "d3_wheeled wheelFactor selectedNodeIdRef event v =
     (case (svgRef v, zoomBehaviorRef v) of
        (Some s, Some zoom) \<Rightarrow>
          (if zoomFilter selectedNodeIdRef event
           then Some (zoomed v s (d3_scaleBy zoom (sv_zoom s) (wheelFactor event) (ev_pointer event)))
           else None)
      | _ \<Rightarrow> None)"

text \<open>A wheel event over the diagram: the listener of the \<open>svg\<close>, then \<open>onWheel\<close>.\<close>

definition wheel ::
  "(dom_event \<Rightarrow> real) \<Rightarrow> bool \<Rightarrow> jsstring option \<Rightarrow> dom_event \<Rightarrow> viewer \<Rightarrow> error + viewer" where
  "wheel wheelFactor isFancyMode selectedNodeId event v =
     (case d3_wheeled wheelFactor selectedNodeId event v of
        Some v1 \<Rightarrow> Inr v1
      | None \<Rightarrow> handleWheel isFancyMode selectedNodeId event v)"

text \<open>
  The imperative handle.
  \<^verbatim>\<open>
  zoomIn: () => performZoom('in'),
  zoomOut: () => performZoom('out'),
  pan: (dx, dy) => {
     if (!svgRef.current || !zoomBehaviorRef.current) return;
     svgRef.current.transition().duration(200).call(zoomBehaviorRef.current.translateBy, dx, dy);
  },
  resetZoom: () => {
    if (!svgRef.current || !zoomBehaviorRef.current) return;
    svgRef.current.transition().duration(750).call(zoomBehaviorRef.current.transform, d3.zoomIdentity);
    savedTransform.current = d3.zoomIdentity;
  },
  exportAsPng: () => {
    if (!svgRef.current) return;
    ...
    image.src = url;
  }\<close>
\<close>

definition zoomIn :: "bool \<Rightarrow> jsstring option \<Rightarrow> viewer \<Rightarrow> error + viewer" where
  "zoomIn isFancyMode selectedNodeId v = performZoom In isFancyMode selectedNodeId v"

definition zoomOut :: "bool \<Rightarrow> jsstring option \<Rightarrow> viewer \<Rightarrow> error + viewer" where
  "zoomOut isFancyMode selectedNodeId v = performZoom Out isFancyMode selectedNodeId v"

definition pan :: "real \<Rightarrow> real \<Rightarrow> viewer \<Rightarrow> error + viewer" where
  "pan dx dy v =
     (case (svgRef v, zoomBehaviorRef v) of
        (Some s, Some zoom) \<Rightarrow> Inr (zoomed v s (d3_translateBy (sv_zoom s) dx dy))
      | _ \<Rightarrow> Inr v)"

definition resetZoom :: "viewer \<Rightarrow> error + viewer" where
  "resetZoom v =
     (case (svgRef v, zoomBehaviorRef v) of
        (Some s, Some zoom) \<Rightarrow> Inr ((zoomed v s zoomIdentity)\<lparr>savedTransform := zoomIdentity\<rparr>)
      | _ \<Rightarrow> Inr v)"

definition exportAsPng :: "viewer \<Rightarrow> error + viewer" where
  "exportAsPng v =
     (case svgRef v of
        None \<Rightarrow> Inr v
      | Some s \<Rightarrow> Inr (v\<lparr>exports := Suc (exports v)\<rparr>))"

text \<open>
  One interaction under the current props \<open>isFancyMode\<close> and \<open>selectedNodeId\<close>. An
  exception leaves the handler before any ref is written, so the refs stay as they were.
\<close>

datatype action =
    ZoomIn
  | ZoomOut
  | Pan real real
  | ResetZoom
  | ExportAsPng
  | WheelEvent dom_event
  | Render svg

definition act ::
  "(dom_event \<Rightarrow> real) \<Rightarrow> bool \<Rightarrow> jsstring option \<Rightarrow> action \<Rightarrow> viewer \<Rightarrow> error + viewer" where
  "act wheelFactor isFancyMode selectedNodeId a v =
     (case a of
        ZoomIn \<Rightarrow> zoomIn isFancyMode selectedNodeId v
      | ZoomOut \<Rightarrow> zoomOut isFancyMode selectedNodeId v
      | Pan dx dy \<Rightarrow> pan dx dy v
      | ResetZoom \<Rightarrow> resetZoom v
      | ExportAsPng \<Rightarrow> exportAsPng v
      | WheelEvent e \<Rightarrow> wheel wheelFactor isFancyMode selectedNodeId e v
      | Render s \<Rightarrow> Inr (render s v))"

fun run ::
  "(dom_event \<Rightarrow> real) \<Rightarrow> (bool \<times> jsstring option \<times> action) list \<Rightarrow> viewer \<Rightarrow> viewer" where
  "run wheelFactor [] v = v"
| "run wheelFactor ((isFancyMode, selectedNodeId, a) # as) v =
     (case act wheelFactor isFancyMode selectedNodeId a v of
        Inl e \<Rightarrow> run wheelFactor as v
      | Inr v1 \<Rightarrow> run wheelFactor as v1)"

section \<open>The render effect\<close>

text \<open>
  The elements that the main rendering effect mounts. In static mode they are those of
  the markup: \<open>geom\<close> gives the screen centre of a node-group as the browser lays it
  out. In fancy mode there is one group of class \<open>fancy-node\<close> for each simulation node
  and one \<open>line\<close> for each edge, with stroke width 2.
\<close>

definition staticNode :: "(node_group \<Rightarrow> (real \<times> real) option) \<Rightarrow> node_group \<Rightarrow> dom_node" where
  "staticNode geom g =
     \<lparr>nd_key = ng_title g, nd_screen = geom g, nd_selected = False, nd_connected = False,
      nd_opacity = None\<rparr>"

definition staticEdge :: "edge_group \<Rightarrow> dom_edge" where
  "staticEdge g =
     \<lparr>ed_title = eg_title g, ed_source = [], ed_target = [], ed_connected = False,
      ed_opacity = None, ed_strokeWidth = None\<rparr>"

definition fancyNode :: "sim_node \<Rightarrow> dom_node" where
  "fancyNode d =
     \<lparr>nd_key = Some (n_id (sn_node d)), nd_screen = None, nd_selected = False,
      nd_connected = False, nd_opacity = None\<rparr>"

definition fancyLine :: "GraphEdge \<Rightarrow> dom_edge" where
  "fancyLine e =
     \<lparr>ed_title = None, ed_source = e_source e, ed_target = e_target e, ed_connected = False,
      ed_opacity = None, ed_strokeWidth = Some 2\<rparr>"

text \<open>
  \<^verbatim>\<open>d3.forceLink(simLinks).id((d: any) => d.id)\<close>: when the force is added to the
  simulation, the library replaces the source and the target of every link by the node
  with that id, and throws when there is none.
\<close>

definition forceLink :: "sim_node list \<Rightarrow> GraphEdge list \<Rightarrow> error + unit" where
  "forceLink sim simLinks =
     (if list_all (\<lambda>l. e_source l \<in> set (map (\<lambda>d. n_id (sn_node d)) sim)
                        \<and> e_target l \<in> set (map (\<lambda>d. n_id (sn_node d)) sim)) simLinks
      then Inr ()
      else Inl NodeNotFound)"

text \<open>
  \<^verbatim>\<open>
  layoutData.edges.forEach(edge => {
    if (edge.displayColor) {
       svgElement.selectAll('.edge').filter(function() {
          const title = d3.select(this).select('title').text();
          return title === edge.id;
       }).each(function() { ... });
    }
  });\<close>
  The strokes and fills that are set on the edge-groups kept are not part of the state
  here; reading the title of an edge-group without \<open>title\<close> child throws.
\<close>

fun colourEdges :: "GraphEdge list \<Rightarrow> dom_edge list \<Rightarrow> error + unit" where
  "colourEdges [] els = Inr ()"
| "colourEdges (edge # es) els =
     (if truthy (e_displayColor edge)
      then (case filterE (\<lambda>el. case titleText (ed_title el) of
                                  Inl err \<Rightarrow> Inl err
                                | Inr title \<Rightarrow> Inr (title = e_id edge)) els of
              Inl err \<Rightarrow> Inl err
            | Inr kept \<Rightarrow> colourEdges es els)
      else colourEdges es els)"

text \<open>
  \<open>container.selectAll("*").remove()\<close> takes every element under the container out of
  its parent, also those under the \<open>svg\<close> that \<open>svgRef\<close> still holds.
\<close>

definition cleared :: "viewer \<Rightarrow> viewer" where
  "cleared v =
     v\<lparr>svgRef := map_option (\<lambda>s. s\<lparr>sv_nodes := [], sv_fancy_nodes := [], sv_edges := [],
                                      sv_lines := []\<rparr>) (svgRef v)\<rparr>"

text \<open>
  The main rendering effect, for a container of the size \<open>box\<close>. Without \<open>layoutData\<close>
  it clears the container. In fancy mode it appends a new \<open>svg\<close>, sets up the zoom,
  appends the lines and the node groups and then makes the simulation, which throws on
  a link to a node that is not there. In static mode it mounts the markup, returns if
  that has no \<open>svg\<close>, colours the edges and sets up the zoom. An exception leaves the
  effect, and the component is taken down.
\<close>

definition renderEffect ::
  "(real \<Rightarrow> real) \<Rightarrow> (node_group \<Rightarrow> (real \<times> real) option) \<Rightarrow> real \<times> real \<Rightarrow> bool \<Rightarrow>
   ParsedLayout option \<Rightarrow> document option \<Rightarrow> viewer \<Rightarrow> error + viewer" where
  "renderEffect rnd geom box isFancyMode layoutData svgContent v =
     (case layoutData of
        None \<Rightarrow> Inr (cleared v)
      | Some l \<Rightarrow>
          if isFancyMode
          then
            (let sim = simNodes rnd (nodes l);
                 simLinks = edges l;
                 s = \<lparr>sv_nodes = [], sv_fancy_nodes = map fancyNode sim, sv_edges = [],
                      sv_lines = map fancyLine simLinks, sv_has_selection = False,
                      sv_zoom = zoomIdentity, sv_width = fst box, sv_height = snd box\<rparr>
             in case forceLink sim simLinks of
                  Inl err \<Rightarrow> Inl err
                | Inr u \<Rightarrow> Inr (render s v))
          else
            (case svgContent of
               None \<Rightarrow> Inr (cleared v)
             | Some doc \<Rightarrow>
                 if \<not> doc_svg doc then Inr (cleared v)
                 else
                   (let s = \<lparr>sv_nodes = map (staticNode geom) (doc_nodes doc),
                             sv_fancy_nodes = [],
                             sv_edges = map staticEdge (doc_edges doc), sv_lines = [],
                             sv_has_selection = False, sv_zoom = zoomIdentity,
                             sv_width = fst box, sv_height = snd box\<rparr>
                    in case colourEdges (edges l) (sv_edges s) of
                         Inl err \<Rightarrow> Inl err
                       | Inr u \<Rightarrow> Inr (render s v))))"

section \<open>Notions of the specification\<close>

text \<open>
  The specification's words, for comparison with the functions of the source. A title
  contains a separator when it contains one or more \<^verbatim>\<open>-\<close> followed by \<^verbatim>\<open>>\<close>, or
  \<^verbatim>\<open>--\<close>.
\<close>

definition has_separator :: "jsstring \<Rightarrow> bool" where
  "has_separator s =
     ((\<exists>pre n post. 1 \<le> n \<and> s = pre @ replicate n DASH @ [GT] @ post)
      \<or> (\<exists>pre post. s = pre @ [DASH, DASH] @ post))"

text \<open>
  The first separator of a title is the match of the expression at the leftmost
  position that has one; \<open>firstSep\<close> gives the text before it and the text after it.
\<close>

fun firstSep :: "jsstring \<Rightarrow> (jsstring \<times> jsstring) option" where
  "firstSep [] = None"
| "firstSep (c # cs) =
     (case sepMatch (c # cs) of
        Some k \<Rightarrow> Some ([], drop k (c # cs))
      | None \<Rightarrow>
          (case firstSep cs of
             None \<Rightarrow> None
           | Some (a, r) \<Rightarrow> Some (c # a, r)))"

text \<open>The node with id \<open>i\<close> shares an edge with the node with id \<open>S\<close>.\<close>

definition sharesEdge :: "GraphEdge list \<Rightarrow> jsstring \<Rightarrow> jsstring \<Rightarrow> bool" where
  "sharesEdge es S i =
     (\<exists>e \<in> set es. (e_source e = S \<and> e_target e = i) \<or> (e_target e = S \<and> e_source e = i))"

text \<open>The scale of a transform lies in the interval from 0.01 to 200.\<close>

definition inExtent :: "ZoomTransform \<Rightarrow> bool" where
  "inExtent t = (0.01 \<le> t_k t \<and> t_k t \<le> 200)"

text \<open>The key of a node element is there and satisfies \<open>p\<close>.\<close>

definition keyHas :: "(jsstring \<Rightarrow> bool) \<Rightarrow> dom_node \<Rightarrow> bool" where
  "keyHas p n = (case nd_key n of None \<Rightarrow> False | Some i \<Rightarrow> p i)"

text \<open>
  The invariant of the refs: the saved transform and the transform of the mounted \<open>svg\<close>
  are within the extent, and the zoom behaviour is one that \<open>setupZoom\<close> has made.
\<close>

definition viewer_ok :: "viewer \<Rightarrow> bool" where
  "viewer_ok v =
     (inExtent (savedTransform v)
      \<and> (case svgRef v of None \<Rightarrow> True | Some s \<Rightarrow> inExtent (sv_zoom s))
      \<and> (case zoomBehaviorRef v of None \<Rightarrow> True | Some z \<Rightarrow> scaleExtent z = (0.01, 200)))"

text \<open>
  An operation with the exact result \<open>r\<close> neither overflows nor rounds: \<open>r\<close> is within
  the range of the doubles and the rounding leaves it as it is.
\<close>

definition exact :: "(real \<Rightarrow> real) \<Rightarrow> real \<Rightarrow> bool" where
  "exact rnd r = (\<bar>r\<bar> < DBL_OVERFLOW \<and> rnd r = r)"

section \<open>Example diagrams\<close>

text \<open>
  Small diagrams for the concrete instances below: a node element with a given key and
  no marks, an edge element with a given title and end nodes and no marks, a parsed
  layout with given edges, an \<open>svg\<close> of 800 by 600 that has the given elements under
  the classes of either mode, a wheel event, and a graph node at a given position.
\<close>

definition node_el :: "jsstring option \<Rightarrow> dom_node" where
  "node_el t =
     \<lparr>nd_key = t, nd_screen = None, nd_selected = False, nd_connected = False,
      nd_opacity = None\<rparr>"

definition edge_el :: "jsstring \<Rightarrow> jsstring \<Rightarrow> dom_edge" where
  "edge_el s t =
     \<lparr>ed_title = Some (s @ js ''->'' @ t), ed_source = s, ed_target = t,
      ed_connected = False, ed_opacity = None, ed_strokeWidth = None\<rparr>"

definition layout_of :: "GraphEdge list \<Rightarrow> ParsedLayout" where
  "layout_of es = \<lparr>nodes = [], edges = es, viewBox = js ''0 0 100 100'', transform = []\<rparr>"

definition svg_of :: "dom_node list \<Rightarrow> dom_edge list \<Rightarrow> svg" where
  "svg_of ns es =
     \<lparr>sv_nodes = ns, sv_fancy_nodes = ns, sv_edges = es, sv_lines = es,
      sv_has_selection = False, sv_zoom = zoomIdentity, sv_width = 800, sv_height = 600\<rparr>"

definition wheel_at :: "real \<Rightarrow> dom_event" where
  "wheel_at dy = \<lparr>ev_type = ''wheel'', ev_button = 0, ev_deltaY = dy, ev_pointer = (400, 300)\<rparr>"

definition node_at :: "jsstring \<Rightarrow> num \<Rightarrow> num \<Rightarrow> GraphNode" where
  "node_at i x y =
     \<lparr>n_id = i, n_name = i, n_color = None, n_fillcolor = None, n_x = x, n_y = y,
      n_shapeType = ellipse,
      n_shapeData = \<lparr>sd_rx = None, sd_ry = None, sd_points = None, sd_radius = None\<rparr>\<rparr>"

text \<open>A large finite double, half of \<open>2 ^ 1024\<close>.\<close>

definition HUGE :: real where
  "HUGE = 2 ^ 1023"

text \<open>
  The markup with an \<open>svg\<close> that has one node-group for each of the given titles, with
  no shape, and one edge-group for each of the given edge titles, with no label.
\<close>

definition doc_of :: "jsstring list \<Rightarrow> jsstring list \<Rightarrow> document" where
  "doc_of ns es =
     \<lparr>doc_svg = True, doc_viewBox = None, doc_transform = None,
      doc_nodes = map (\<lambda>t. \<lparr>ng_title = Some t, ng_text = None, ng_ellipse = None,
                              ng_polygon = None, ng_path = None\<rparr>) ns,
      doc_edges = map (\<lambda>t. \<lparr>eg_title = Some t, eg_text = None\<rparr>) es\<rparr>"

section \<open>Properties of the color classifier\<close>



lemma shl5_bound: "\<bar>shl5 h\<bar> \<le> 2 ^ 31"
proof -
  have "- (2 ^ 31) \<le> sint (push_bit 5 (word_of_int h :: 32 word))"
    using sint_ge [of "push_bit 5 (word_of_int h :: 32 word)"] by simp
  moreover have "sint (push_bit 5 (word_of_int h :: 32 word)) < 2 ^ 31"
    using sint_lt [of "push_bit 5 (word_of_int h :: 32 word)"] by simp
  ultimately show ?thesis by (simp add: shl5_def)
qed

lemma uint_code_unit: "0 \<le> uint (c :: code_unit) \<and> uint c < 65536"
  using uint_bounded [of c] by simp

lemma hashLoop_bound: "\<bar>hashLoop h s\<bar> \<le> \<bar>h\<bar> + int (length s) * (2 ^ 31 + 65535)"
proof (induction s arbitrary: h)
  case Nil
  show ?case by simp
next
  case (Cons c cs)
  have "\<bar>uint c + (shl5 h - h)\<bar> \<le> \<bar>h\<bar> + (2 ^ 31 + 65535)"
    using shl5_bound [of h] uint_code_unit [of c] by linarith
  with Cons.IH [of "uint c + (shl5 h - h)"] show ?case
    by (simp add: algebra_simps)
qed





section \<open>Properties of the edge parser\<close>

lemma sepMatch_Nil: "sepMatch [] = None"
  by (simp add: sepMatch_def)

lemma splitSep_firstSep:
  "splitSep cur s =
     (case firstSep s of
        None \<Rightarrow> [cur @ s]
      | Some (a, r) \<Rightarrow> (cur @ a) # splitSep [] r)"
proof (induction s arbitrary: cur)
  case Nil
  show ?case by simp
next
  case (Cons c cs)
  show ?case
  proof (cases "sepMatch (c # cs)")
    case None
    then show ?thesis
      using Cons.IH [of "cur @ [c]"] by (simp split: option.splits)
  next
    case (Some k)
    then show ?thesis by simp
  qed
qed

lemma sepMatch_directed:
  assumes "1 \<le> n"
  shows "sepMatch (replicate n DASH @ GT # post) = Some (Suc n)"
proof -
  have "takeWhile (\<lambda>c. c = DASH) (replicate n DASH @ GT # post) = replicate n DASH"
    by (induction n) (simp_all add: GT_def DASH_def)
  then show ?thesis using assms by (simp add: sepMatch_def)
qed

lemma sepMatch_undirected: "sepMatch (DASH # DASH # post) \<noteq> None"
  by (simp add: sepMatch_def Let_def)

lemma firstSep_append: "sepMatch s \<noteq> None \<Longrightarrow> firstSep (pre @ s) \<noteq> None"
proof (induction pre)
  case Nil
  then show ?case by (cases s) (auto simp: sepMatch_Nil)
next
  case (Cons c pre)
  then show ?case by (auto split: option.splits)
qed

lemma sepMatch_shape:
  assumes "sepMatch s = Some k"
  shows "(\<exists>n post. 1 \<le> n \<and> k = Suc n \<and> s = replicate n DASH @ [GT] @ post)
         \<or> (\<exists>post. k = 2 \<and> s = [DASH, DASH] @ post)"
proof -
  define n where "n = length (takeWhile (\<lambda>c. c = DASH) s)"
  have tw: "takeWhile (\<lambda>c. c = DASH) s = replicate n DASH"
    unfolding n_def
    by (metis (mono_tags, lifting) replicate_length_same set_takeWhileD)
  have s: "s = replicate n DASH @ drop n s"
    using tw takeWhile_dropWhile_id [of "\<lambda>c. c = DASH" s]
    by (metis append_eq_conv_conj length_replicate)
  show ?thesis
  proof (cases "1 \<le> n \<and> take 1 (drop n s) = [GT]")
    case True
    then have k: "k = Suc n" using assms by (simp add: sepMatch_def n_def)
    from True obtain post where "drop n s = GT # post"
      by (cases "drop n s") auto
    with s True k show ?thesis by auto
  next
    case False
    then have k: "k = 2" and n2: "2 \<le> n"
      using assms by (auto simp: sepMatch_def n_def Let_def split: if_splits)
    from n2 obtain m where "n = Suc (Suc m)"
      by (metis Suc_le_D numeral_2_eq_2 Suc_le_mono)
    with s have "s = [DASH, DASH] @ (replicate m DASH @ drop n s)" by simp
    with k show ?thesis by blast
  qed
qed

lemma sepMatch_le:
  assumes "sepMatch s = Some k"
  shows "2 \<le> k \<and> k \<le> length s"
  using sepMatch_shape [OF assms]
proof (elim disjE exE conjE)
  fix n post
  assume "1 \<le> n" "k = Suc n" and s: "s = replicate n DASH @ [GT] @ post"
  then show ?thesis by simp
next
  fix post
  assume "k = 2" "s = [DASH, DASH] @ post"
  then show ?thesis by simp
qed

lemma firstSep_decomp:
  "firstSep s = Some (a, r) \<Longrightarrow>
     \<exists>m. s = a @ m @ r \<and> sepMatch (m @ r) = Some (length m)"
proof (induction s arbitrary: a)
  case Nil
  then show ?case by simp
next
  case (Cons c cs)
  show ?case
  proof (cases "sepMatch (c # cs)")
    case (Some k)
    with Cons.prems have a: "a = []" and r: "r = drop k (c # cs)" by auto
    from sepMatch_le [OF Some] have "k \<le> length (c # cs)" by blast
    then have "length (take k (c # cs)) = k" by simp
    with a r Some show ?thesis
      by (intro exI [of _ "take k (c # cs)"]) (simp del: take_Suc_Cons drop_Suc_Cons)
  next
    case None
    with Cons.prems obtain a' where f: "firstSep cs = Some (a', r)" and a: "a = c # a'"
      by (auto split: option.splits)
    from Cons.IH [OF f] a show ?thesis by auto
  qed
qed

lemma has_separator_iff: "has_separator s = (firstSep s \<noteq> None)"
proof
  assume "has_separator s"
  then show "firstSep s \<noteq> None"
    unfolding has_separator_def
  proof (elim disjE exE conjE)
    fix pre n post
    assume "1 \<le> n" and s: "s = pre @ replicate n DASH @ [GT] @ post"
    then have "sepMatch (replicate n DASH @ GT # post) \<noteq> None"
      by (simp add: sepMatch_directed)
    then show ?thesis unfolding s using firstSep_append by simp
  next
    fix pre post
    assume s: "s = pre @ [DASH, DASH] @ post"
    show ?thesis unfolding s using firstSep_append [OF sepMatch_undirected] by simp
  qed
next
  assume "firstSep s \<noteq> None"
  then obtain a r where "firstSep s = Some (a, r)" by auto
  from firstSep_decomp [OF this] obtain m where
    s: "s = a @ m @ r" and m: "sepMatch (m @ r) = Some (length m)" by blast
  from sepMatch_shape [OF m] show "has_separator s"
  proof (elim disjE exE conjE)
    fix n post
    assume n: "1 \<le> n" and "m @ r = replicate n DASH @ [GT] @ post"
    with s have "s = a @ replicate n DASH @ [GT] @ post" by simp
    with n show ?thesis unfolding has_separator_def by blast
  next
    fix post
    assume "m @ r = [DASH, DASH] @ post"
    with s have "s = a @ [DASH, DASH] @ post" by simp
    then show ?thesis unfolding has_separator_def by blast
  qed
qed

lemma firstSep_leftmost:
  "firstSep s = Some (a, r) \<Longrightarrow> i < length a \<Longrightarrow> sepMatch (drop i s) = None"
proof (induction s arbitrary: a i)
  case Nil
  then show ?case by simp
next
  case (Cons c cs)
  show ?case
  proof (cases "sepMatch (c # cs)")
    case (Some k)
    with Cons.prems show ?thesis by auto
  next
    case None
    with Cons.prems obtain a' where f: "firstSep cs = Some (a', r)" and a: "a = c # a'"
      by (auto split: option.splits)
    show ?thesis
    proof (cases i)
      case 0
      with None show ?thesis by simp
    next
      case (Suc j)
      with Cons.prems a have "j < length a'" by simp
      from Cons.IH [OF f this] Suc show ?thesis by simp
    qed
  qed
qed

lemma split_title_firstSep:
  "split_title t =
     (case firstSep t of None \<Rightarrow> [t] | Some (a, r) \<Rightarrow> a # split_title r)"
  unfolding split_title_def using splitSep_firstSep [of "[]" t]
  by (simp split: option.splits)

lemma split_title_two:
  "split_title t =
     (case firstSep t of
        None \<Rightarrow> [t]
      | Some (a, r) \<Rightarrow>
          (case firstSep r of
             None \<Rightarrow> [a, r]
           | Some (b, r') \<Rightarrow> a # b # split_title r'))"
proof (cases "firstSep t")
  case None
  then show ?thesis using split_title_firstSep [of t] by simp
next
  case (Some ar)
  obtain a r where ar: "ar = (a, r)" by (cases ar)
  show ?thesis
    using Some ar split_title_firstSep [of t] split_title_firstSep [of r]
    by (simp split: option.splits)
qed

lemma extractEdge_firstSep:
  "extractEdge el =
     (case firstSep (orElse (eg_title el) []) of
        None \<Rightarrow> None
      | Some (before, after) \<Rightarrow>
          Some \<lparr>e_id = orElse (eg_title el) [], e_source = before,
                e_target = (case firstSep after of None \<Rightarrow> after | Some (mid, rest) \<Rightarrow> mid),
                e_label = map_option trim (eg_text el),
                e_displayColor =
                  Some (getTypeColor (Some (orElse (map_option trim (eg_text el)) [])))\<rparr>)"
  by (simp add: extractEdge_def Let_def split_title_two [of "orElse (eg_title el) []"]
           split: option.splits)

lemma extractEdge_None: "(extractEdge el = None) = (\<not> has_separator (orElse (eg_title el) []))"
  by (simp add: extractEdge_firstSep has_separator_iff split: option.splits)

lemma extractEdges_filter:
  "extractEdges els =
     map (the \<circ> extractEdge) (filter (\<lambda>el. has_separator (orElse (eg_title el) [])) els)"
proof (induction els)
  case Nil
  show ?case by simp
next
  case (Cons el els)
  show ?case
  proof (cases "extractEdge el")
    case None
    with Cons show ?thesis using extractEdge_None [of el] by simp
  next
    case (Some e)
    with Cons show ?thesis using extractEdge_None [of el] by simp
  qed
qed

text \<open>
  C1 (as amended). An edge-group whose title contains a separator gives exactly one
  edge: its source is the text before the first separator, its target is the text
  between the first separator and the next one, or all the text after the first
  separator when there is no further one. A title without a separator gives no edge.
\<close>

theorem edge_endpoints:
  "extractEdges [el] =
     (case firstSep (orElse (eg_title el) []) of
        None \<Rightarrow> []
      | Some (before, after) \<Rightarrow>
          [\<lparr>e_id = orElse (eg_title el) [], e_source = before,
            e_target = (case firstSep after of None \<Rightarrow> after | Some (mid, rest) \<Rightarrow> mid),
            e_label = map_option trim (eg_text el),
            e_displayColor =
              Some (getTypeColor (Some (orElse (map_option trim (eg_text el)) [])))\<rparr>])"
  by (simp add: extractEdge_firstSep split: option.splits)

lemmas eval_title = js_def sepMatch_def DASH_def GT_def

theorem edge_endpoints_witness:
  "extractEdges [\<lparr>eg_title = Some (js ''A->B''), eg_text = None\<rparr>] =
     [\<lparr>e_id = js ''A->B'', e_source = js ''A'', e_target = js ''B'', e_label = None,
       e_displayColor = Some UNTYPED_COLOR\<rparr>]
   \<and> extractEdges [\<lparr>eg_title = Some (js ''A--B''), eg_text = None\<rparr>] =
     [\<lparr>e_id = js ''A--B'', e_source = js ''A'', e_target = js ''B'', e_label = None,
       e_displayColor = Some UNTYPED_COLOR\<rparr>]
   \<and> extractEdges [\<lparr>eg_title = Some (js ''A-B''), eg_text = None\<rparr>] = []"
  using edge_endpoints [of "\<lparr>eg_title = Some (js ''A->B''), eg_text = None\<rparr>"]
        edge_endpoints [of "\<lparr>eg_title = Some (js ''A--B''), eg_text = None\<rparr>"]
        edge_endpoints [of "\<lparr>eg_title = Some (js ''A-B''), eg_text = None\<rparr>"]
  by (simp add: eval_title getTypeColor_def)

theorem edge_target_counterexample:
  "firstSep (js ''A->B->C'') = Some (js ''A'', js ''B->C'')
   \<and> map e_target (extractEdges [\<lparr>eg_title = Some (js ''A->B->C''), eg_text = None\<rparr>])
       = [js ''B'']
   \<and> js ''B'' \<noteq> js ''B->C''"
  by (simp add: extractEdge_def split_title_def eval_title)

text \<open>
  C10. The edges of the parsed layout are the edges of exactly those edge-groups whose
  title contains a separator, whatever the nodes are; an edge-group yields no edge only
  when its title contains no separator; the title \<^verbatim>\<open>->\<close> yields an edge whose source
  and target are empty.
\<close>

theorem edges_not_validated:
  "(\<exists>l. parse pf rp (Some doc) = Some l
        \<and> edges l = map (the \<circ> extractEdge)
                      (filter (\<lambda>el. has_separator (orElse (eg_title el) [])) (doc_edges doc)))
   \<and> (extractEdge el = None) = (\<not> has_separator (orElse (eg_title el) []))
   \<and> extractEdge \<lparr>eg_title = Some (js ''->''), eg_text = None\<rparr> =
       Some \<lparr>e_id = js ''->'', e_source = [], e_target = [], e_label = None,
             e_displayColor = Some UNTYPED_COLOR\<rparr>"
proof -
  have "extractEdge \<lparr>eg_title = Some (js ''->''), eg_text = None\<rparr> =
       Some \<lparr>e_id = js ''->'', e_source = [], e_target = [], e_label = None,
             e_displayColor = Some UNTYPED_COLOR\<rparr>"
    by (simp add: extractEdge_def split_title_def eval_title getTypeColor_def)
  then show ?thesis
    using extractEdges_filter [of "doc_edges doc"] extractEdge_None [of el]
    by (simp add: parse_def)
qed

theorem edges_not_validated_witness:
  "edges (the (parse (\<lambda>s. NaN) (\<lambda>s a b. ([], NaN))
       (Some \<lparr>doc_svg = True, doc_viewBox = None, doc_transform = None, doc_nodes = [],
              doc_edges = [\<lparr>eg_title = Some (js ''A->B''), eg_text = None\<rparr>,
                           \<lparr>eg_title = Some (js ''A-B''), eg_text = None\<rparr>]\<rparr>)))
   = [\<lparr>e_id = js ''A->B'', e_source = js ''A'', e_target = js ''B'', e_label = None,
        e_displayColor = Some UNTYPED_COLOR\<rparr>]"
  using edges_not_validated [of "\<lambda>s. NaN" "\<lambda>s a b. ([], NaN)"
       "\<lparr>doc_svg = True, doc_viewBox = None, doc_transform = None, doc_nodes = [],
              doc_edges = [\<lparr>eg_title = Some (js ''A->B''), eg_text = None\<rparr>,
                           \<lparr>eg_title = Some (js ''A-B''), eg_text = None\<rparr>]\<rparr>"]
  by (simp add: parse_def extractEdge_def split_title_def eval_title getTypeColor_def)

section \<open>Properties of the node parser\<close>

lemma extractNode_id: "n_id (extractNode pf rp el) = orElse (ng_title el) []"
  by (simp add: extractNode_def Let_def split: prod.splits)

lemma extractNodes_ids:
  "map n_id (extractNodes pf rp els) = map (\<lambda>el. orElse (ng_title el) []) els"
  by (induction els) (simp_all add: extractNode_id)

text \<open>
  C9 (as amended). The parsed layout has exactly one \<open>GraphNode\<close> for each node-group of
  the diagram, in document order, with the title text of the group as its id. Node ids
  are pairwise distinct exactly when the titles of the node-groups are.
\<close>

theorem one_node_per_group:
  "\<exists>l. parse pf rp (Some doc) = Some l
       \<and> map n_id (nodes l) = map (\<lambda>el. orElse (ng_title el) []) (doc_nodes doc)
       \<and> length (nodes l) = length (doc_nodes doc)
       \<and> distinct (map n_id (nodes l))
           = distinct (map (\<lambda>el. orElse (ng_title el) []) (doc_nodes doc))"
proof -
  have ids: "map n_id (extractNodes pf rp (doc_nodes doc))
             = map (\<lambda>el. orElse (ng_title el) []) (doc_nodes doc)"
    by (rule extractNodes_ids)
  then have "length (extractNodes pf rp (doc_nodes doc)) = length (doc_nodes doc)"
    using length_map by metis
  with ids show ?thesis by (simp add: parse_def)
qed

theorem one_node_per_group_witness:
  "map n_id (nodes (the (parse (\<lambda>s. NaN) (\<lambda>s a b. ([], NaN))
       (Some \<lparr>doc_svg = True, doc_viewBox = None, doc_transform = None,
              doc_nodes = [\<lparr>ng_title = Some (js ''A''), ng_text = None, ng_ellipse = None,
                             ng_polygon = None, ng_path = None\<rparr>,
                           \<lparr>ng_title = Some (js ''B''), ng_text = None, ng_ellipse = None,
                             ng_polygon = None, ng_path = None\<rparr>],
              doc_edges = []\<rparr>))))
   = [js ''A'', js ''B'']"
  using one_node_per_group [of "\<lambda>s. NaN" "\<lambda>s a b. ([], NaN)"
       "\<lparr>doc_svg = True, doc_viewBox = None, doc_transform = None,
              doc_nodes = [\<lparr>ng_title = Some (js ''A''), ng_text = None, ng_ellipse = None,
                             ng_polygon = None, ng_path = None\<rparr>,
                           \<lparr>ng_title = Some (js ''B''), ng_text = None, ng_ellipse = None,
                             ng_polygon = None, ng_path = None\<rparr>],
              doc_edges = []\<rparr>"]
  by (auto simp: js_def)

theorem duplicate_title_counterexample:
  "map n_id (nodes (the (parse (\<lambda>s. NaN) (\<lambda>s a b. ([], NaN))
       (Some \<lparr>doc_svg = True, doc_viewBox = None, doc_transform = None,
              doc_nodes = [\<lparr>ng_title = Some (js ''A''), ng_text = None, ng_ellipse = None,
                             ng_polygon = None, ng_path = None\<rparr>,
                           \<lparr>ng_title = Some (js ''A''), ng_text = None, ng_ellipse = None,
                             ng_polygon = None, ng_path = None\<rparr>],
              doc_edges = []\<rparr>))))
   = [js ''A'', js ''A'']"
  by (simp add: parse_def extractNode_def nodeCenter_def nodeShape_def js_def Let_def)

section \<open>Properties of the fancy mode setup\<close>

lemma orZero_not_NaN: "orZero v \<noteq> NaN"
  by (cases v) simp_all

lemma num_lt_irrefl: "\<not> num_lt a a"
  by (cases a) simp_all

lemma num_le_trans:
  "b \<noteq> NaN \<Longrightarrow> \<not> num_lt b a \<Longrightarrow> \<not> num_lt c b \<Longrightarrow> \<not> num_lt c a"
  by (cases a; cases b; cases c) simp_all

lemma num_lt_imp_le: "num_lt a b \<Longrightarrow> \<not> num_lt b a"
  by (cases a; cases b) simp_all

lemma not_lt_PosInf: "a \<noteq> NaN \<Longrightarrow> \<not> num_lt a PosInf \<Longrightarrow> a = PosInf"
  by (cases a) simp_all

lemma not_gt_NegInf: "a \<noteq> NaN \<Longrightarrow> \<not> num_lt NegInf a \<Longrightarrow> a = NegInf"
  by (cases a) simp_all

lemma fold_lower:
  assumes "\<forall>n \<in> set ns. f n \<noteq> NaN" and "m0 \<noteq> NaN"
  shows "fold (\<lambda>n m. if num_lt (f n) m then f n else m) ns m0 \<in> insert m0 (f ` set ns)
         \<and> \<not> num_lt m0 (fold (\<lambda>n m. if num_lt (f n) m then f n else m) ns m0)
         \<and> (\<forall>n \<in> set ns. \<not> num_lt (f n) (fold (\<lambda>n m. if num_lt (f n) m then f n else m) ns m0))"
  using assms
proof (induction ns arbitrary: m0)
  case Nil
  show ?case by (simp add: num_lt_irrefl)
next
  case (Cons n ns)
  define m1 where "m1 = (if num_lt (f n) m0 then f n else m0)"
  define m where "m = fold (\<lambda>n m. if num_lt (f n) m then f n else m) ns m1"
  have fn: "f n \<noteq> NaN" and rest: "\<forall>n \<in> set ns. f n \<noteq> NaN"
    using Cons.prems(1) by simp_all
  have m1: "m1 \<noteq> NaN"
    using fn Cons.prems(2) by (simp add: m1_def)
  from Cons.IH [OF rest m1]
  have mem: "m \<in> insert m1 (f ` set ns)" and le1: "\<not> num_lt m1 m"
    and all: "\<forall>n \<in> set ns. \<not> num_lt (f n) m"
    by (simp_all add: m_def)
  have a: "\<not> num_lt m0 m1" and b: "\<not> num_lt (f n) m1"
    by (auto simp: m1_def num_lt_irrefl num_lt_imp_le)
  have c: "\<not> num_lt m0 m"
    using num_le_trans [OF m1 le1 a] .
  have d: "\<not> num_lt (f n) m"
    using num_le_trans [OF m1 le1 b] .
  have e: "m \<in> insert m0 (f ` set (n # ns))"
    using mem by (auto simp: m1_def split: if_splits)
  have "fold (\<lambda>n m. if num_lt (f n) m then f n else m) (n # ns) m0 = m"
    by (simp add: m_def m1_def)
  with c d e all show ?case by simp
qed

lemma fold_upper:
  assumes "\<forall>n \<in> set ns. f n \<noteq> NaN" and "m0 \<noteq> NaN"
  shows "fold (\<lambda>n m. if num_lt m (f n) then f n else m) ns m0 \<in> insert m0 (f ` set ns)
         \<and> \<not> num_lt (fold (\<lambda>n m. if num_lt m (f n) then f n else m) ns m0) m0
         \<and> (\<forall>n \<in> set ns. \<not> num_lt (fold (\<lambda>n m. if num_lt m (f n) then f n else m) ns m0) (f n))"
  using assms
proof (induction ns arbitrary: m0)
  case Nil
  show ?case by (simp add: num_lt_irrefl)
next
  case (Cons n ns)
  define m1 where "m1 = (if num_lt m0 (f n) then f n else m0)"
  define m where "m = fold (\<lambda>n m. if num_lt m (f n) then f n else m) ns m1"
  have fn: "f n \<noteq> NaN" and rest: "\<forall>n \<in> set ns. f n \<noteq> NaN"
    using Cons.prems(1) by simp_all
  have m1: "m1 \<noteq> NaN"
    using fn Cons.prems(2) by (simp add: m1_def)
  from Cons.IH [OF rest m1]
  have mem: "m \<in> insert m1 (f ` set ns)" and le1: "\<not> num_lt m m1"
    and all: "\<forall>n \<in> set ns. \<not> num_lt m (f n)"
    by (simp_all add: m_def)
  have a: "\<not> num_lt m1 m0" and b: "\<not> num_lt m1 (f n)"
    by (auto simp: m1_def num_lt_irrefl num_lt_imp_le)
  have c: "\<not> num_lt m m0"
    using num_le_trans [OF m1 a le1] .
  have d: "\<not> num_lt m (f n)"
    using num_le_trans [OF m1 b le1] .
  have e: "m \<in> insert m0 (f ` set (n # ns))"
    using mem by (auto simp: m1_def split: if_splits)
  have "fold (\<lambda>n m. if num_lt m (f n) then f n else m) (n # ns) m0 = m"
    by (simp add: m_def m1_def)
  with c d e all show ?case by simp
qed

lemma lower_bound:
  assumes "ns \<noteq> []" and "\<forall>n \<in> set ns. f n \<noteq> NaN"
  shows "fold (\<lambda>n m. if num_lt (f n) m then f n else m) ns PosInf \<in> f ` set ns
         \<and> (\<forall>n \<in> set ns. \<not> num_lt (f n) (fold (\<lambda>n m. if num_lt (f n) m then f n else m) ns PosInf))"
proof -
  define m where "m = fold (\<lambda>n m. if num_lt (f n) m then f n else m) ns PosInf"
  from fold_lower [OF assms(2), of PosInf]
  have mem: "m \<in> insert PosInf (f ` set ns)" and all: "\<forall>n \<in> set ns. \<not> num_lt (f n) m"
    by (simp_all add: m_def)
  have "m \<in> f ` set ns"
  proof (cases "m = PosInf")
    case True
    from assms(1) obtain n where n: "n \<in> set ns" by (cases ns) auto
    with all True assms(2) have "f n = PosInf"
      by (simp add: not_lt_PosInf)
    with n True show ?thesis by force
  next
    case False
    with mem show ?thesis by simp
  qed
  with all show ?thesis by (simp add: m_def)
qed

lemma upper_bound:
  assumes "ns \<noteq> []" and "\<forall>n \<in> set ns. f n \<noteq> NaN"
  shows "fold (\<lambda>n m. if num_lt m (f n) then f n else m) ns NegInf \<in> f ` set ns
         \<and> (\<forall>n \<in> set ns. \<not> num_lt (fold (\<lambda>n m. if num_lt m (f n) then f n else m) ns NegInf) (f n))"
proof -
  define m where "m = fold (\<lambda>n m. if num_lt m (f n) then f n else m) ns NegInf"
  from fold_upper [OF assms(2), of NegInf]
  have mem: "m \<in> insert NegInf (f ` set ns)" and all: "\<forall>n \<in> set ns. \<not> num_lt m (f n)"
    by (simp_all add: m_def)
  have "m \<in> f ` set ns"
  proof (cases "m = NegInf")
    case True
    from assms(1) obtain n where n: "n \<in> set ns" by (cases ns) auto
    with all True assms(2) have "f n = NegInf"
      by (simp add: not_gt_NegInf)
    with n True show ?thesis by force
  next
    case False
    with mem show ?thesis by simp
  qed
  with all show ?thesis by (simp add: m_def)
qed

lemma bboxLoop_minX:
  "minX (bboxLoop b ns) =
     fold (\<lambda>n m. if num_lt (orZero (n_x n)) m then orZero (n_x n) else m) ns (minX b)"
  by (induction ns arbitrary: b) (simp_all add: Let_def)

lemma bboxLoop_maxX:
  "maxX (bboxLoop b ns) =
     fold (\<lambda>n m. if num_lt m (orZero (n_x n)) then orZero (n_x n) else m) ns (maxX b)"
  by (induction ns arbitrary: b) (simp_all add: Let_def)

lemma bboxLoop_minY:
  "minY (bboxLoop b ns) =
     fold (\<lambda>n m. if num_lt (orZero (n_y n)) m then orZero (n_y n) else m) ns (minY b)"
  by (induction ns arbitrary: b) (simp_all add: Let_def)

lemma bboxLoop_maxY:
  "maxY (bboxLoop b ns) =
     fold (\<lambda>n m. if num_lt m (orZero (n_y n)) then orZero (n_y n) else m) ns (maxY b)"
  by (induction ns arbitrary: b) (simp_all add: Let_def)

lemma scaled_exact:
  assumes "exact rnd (a + b)" and "exact rnd ((a + b) / 2)"
    and "exact rnd (r - (a + b) / 2)" and "exact rnd ((r - (a + b) / 2) * 0.5)"
    and "exact rnd ((a + b) / 2 + (r - (a + b) / 2) * 0.5)"
  shows "scaled rnd (center rnd (Fin a) (Fin b)) (Fin r)
         = Fin ((a + b) / 2 + (r - (a + b) / 2) / 2)"
proof -
  have ov: "\<bar>v\<bar> < DBL_OVERFLOW \<Longrightarrow> rnd v = v \<Longrightarrow> double_of rnd v = Fin v" for v
    by (auto simp: double_of_def)
  have c: "center rnd (Fin a) (Fin b) = Fin ((a + b) / 2)"
    using assms(1,2) by (simp add: center_def exact_def ov)
  have s: "num_sub rnd (Fin r) (Fin ((a + b) / 2)) = Fin (r - (a + b) / 2)"
    using assms(3) by (simp add: num_sub_def exact_def ov)
  have m: "num_mul rnd (Fin (r - (a + b) / 2)) FANCY_SCALE_FACTOR
           = Fin ((r - (a + b) / 2) * 0.5)"
    using assms(4) by (simp add: FANCY_SCALE_FACTOR_def exact_def ov)
  have "num_add rnd (Fin ((a + b) / 2)) (Fin ((r - (a + b) / 2) * 0.5))
        = Fin ((a + b) / 2 + (r - (a + b) / 2) * 0.5)"
    using assms(5) by (simp add: exact_def ov)
  then show ?thesis
    by (simp add: scaled_def c s m)
qed

text \<open>
  C4 (as amended). Every simulation node gets, in double arithmetic, the origin
  \<open>c + (raw - c) * 0.5\<close> in each coordinate, where \<open>raw\<close> is \<open>n.x || 0\<close> or \<open>n.y || 0\<close>
  and \<open>c = (lo + hi) / 2\<close> for the least and the greatest raw coordinate of all nodes,
  each operation rounded; its position \<open>x\<close>, \<open>y\<close> and its pin \<open>fx\<close>, \<open>fy\<close> are that
  origin. When none of the five operations overflows or rounds, the origin is exactly
  halfway from the centre to the raw position.
\<close>

theorem fancy_origin:
  assumes "i < length ns"
  shows "\<exists>lx hx ly hy.
           lx \<in> (\<lambda>n. orZero (n_x n)) ` set ns
         \<and> (\<forall>n \<in> set ns. \<not> num_lt (orZero (n_x n)) lx)
         \<and> hx \<in> (\<lambda>n. orZero (n_x n)) ` set ns
         \<and> (\<forall>n \<in> set ns. \<not> num_lt hx (orZero (n_x n)))
         \<and> ly \<in> (\<lambda>n. orZero (n_y n)) ` set ns
         \<and> (\<forall>n \<in> set ns. \<not> num_lt (orZero (n_y n)) ly)
         \<and> hy \<in> (\<lambda>n. orZero (n_y n)) ` set ns
         \<and> (\<forall>n \<in> set ns. \<not> num_lt hy (orZero (n_y n)))
         \<and> (let cx = num_div2 rnd (num_add rnd lx hx);
                 cy = num_div2 rnd (num_add rnd ly hy);
                 rx = orZero (n_x (ns ! i));
                 ry = orZero (n_y (ns ! i));
                 ox = num_add rnd cx (num_mul rnd (num_sub rnd rx cx) (Fin 0.5));
                 oy = num_add rnd cy (num_mul rnd (num_sub rnd ry cy) (Fin 0.5));
                 d = simNodes rnd ns ! i
             in length (simNodes rnd ns) = length ns
                \<and> n_id (sn_node d) = n_id (ns ! i)
                \<and> originX d = ox \<and> originY d = oy
                \<and> n_x (sn_node d) = ox \<and> n_y (sn_node d) = oy
                \<and> fx d = Some ox \<and> fy d = Some oy
                \<and> (\<forall>a b r. lx = Fin a \<and> hx = Fin b \<and> rx = Fin r
                       \<and> exact rnd (a + b) \<and> exact rnd ((a + b) / 2)
                       \<and> exact rnd (r - (a + b) / 2)
                       \<and> exact rnd ((r - (a + b) / 2) * 0.5)
                       \<and> exact rnd ((a + b) / 2 + (r - (a + b) / 2) * 0.5)
                     \<longrightarrow> ox = Fin ((a + b) / 2 + (r - (a + b) / 2) / 2))
                \<and> (\<forall>a b r. ly = Fin a \<and> hy = Fin b \<and> ry = Fin r
                       \<and> exact rnd (a + b) \<and> exact rnd ((a + b) / 2)
                       \<and> exact rnd (r - (a + b) / 2)
                       \<and> exact rnd ((r - (a + b) / 2) * 0.5)
                       \<and> exact rnd ((a + b) / 2 + (r - (a + b) / 2) * 0.5)
                     \<longrightarrow> oy = Fin ((a + b) / 2 + (r - (a + b) / 2) / 2)))"
proof -
  define b0 where "b0 = \<lparr>minX = PosInf, maxX = NegInf, minY = PosInf, maxY = NegInf\<rparr>"
  define lx where "lx = minX (bboxLoop b0 ns)"
  define hx where "hx = maxX (bboxLoop b0 ns)"
  define ly where "ly = minY (bboxLoop b0 ns)"
  define hy where "hy = maxY (bboxLoop b0 ns)"
  define cx where "cx = num_div2 rnd (num_add rnd lx hx)"
  define cy where "cy = num_div2 rnd (num_add rnd ly hy)"
  define rx where "rx = orZero (n_x (ns ! i))"
  define ry where "ry = orZero (n_y (ns ! i))"
  define ox where "ox = num_add rnd cx (num_mul rnd (num_sub rnd rx cx) (Fin 0.5))"
  define oy where "oy = num_add rnd cy (num_mul rnd (num_sub rnd ry cy) (Fin 0.5))"
  from assms have ne: "ns \<noteq> []" by auto
  have nx: "\<forall>n \<in> set ns. orZero (n_x n) \<noteq> NaN" and ny: "\<forall>n \<in> set ns. orZero (n_y n) \<noteq> NaN"
    by (simp_all add: orZero_not_NaN)
  have blx: "lx \<in> (\<lambda>n. orZero (n_x n)) ` set ns \<and> (\<forall>n \<in> set ns. \<not> num_lt (orZero (n_x n)) lx)"
    unfolding lx_def bboxLoop_minX b0_def using lower_bound [OF ne nx] by simp
  have bhx: "hx \<in> (\<lambda>n. orZero (n_x n)) ` set ns \<and> (\<forall>n \<in> set ns. \<not> num_lt hx (orZero (n_x n)))"
    unfolding hx_def bboxLoop_maxX b0_def using upper_bound [OF ne nx] by simp
  have bly: "ly \<in> (\<lambda>n. orZero (n_y n)) ` set ns \<and> (\<forall>n \<in> set ns. \<not> num_lt (orZero (n_y n)) ly)"
    unfolding ly_def bboxLoop_minY b0_def using lower_bound [OF ne ny] by simp
  have bhy: "hy \<in> (\<lambda>n. orZero (n_y n)) ` set ns \<and> (\<forall>n \<in> set ns. \<not> num_lt hy (orZero (n_y n)))"
    unfolding hy_def bboxLoop_maxY b0_def using upper_bound [OF ne ny] by simp
  have sim: "simNodes rnd ns = map (simNode rnd cx cy) ns"
    by (simp add: simNodes_def Let_def center_def cx_def cy_def lx_def hx_def ly_def hy_def
          b0_def)
  have d: "simNodes rnd ns ! i = simNode rnd cx cy (ns ! i)"
    using sim assms by simp
  have len: "length (simNodes rnd ns) = length ns"
    using sim by simp
  have fields:
    "n_id (sn_node (simNodes rnd ns ! i)) = n_id (ns ! i)"
    "originX (simNodes rnd ns ! i) = ox"
    "originY (simNodes rnd ns ! i) = oy"
    "n_x (sn_node (simNodes rnd ns ! i)) = ox"
    "n_y (sn_node (simNodes rnd ns ! i)) = oy"
    "fx (simNodes rnd ns ! i) = Some ox"
    "fy (simNodes rnd ns ! i) = Some oy"
    by (simp_all add: d simNode_def scaled_def FANCY_SCALE_FACTOR_def Let_def ox_def oy_def
          rx_def ry_def)
  have ex: "ox = Fin ((a + b) / 2 + (r - (a + b) / 2) / 2)"
    if "lx = Fin a" "hx = Fin b" "rx = Fin r"
      "exact rnd (a + b)" "exact rnd ((a + b) / 2)" "exact rnd (r - (a + b) / 2)"
      "exact rnd ((r - (a + b) / 2) * 0.5)"
      "exact rnd ((a + b) / 2 + (r - (a + b) / 2) * 0.5)" for a b r
    using scaled_exact [OF that(4-8)] that(1-3)
    by (simp add: ox_def cx_def scaled_def center_def FANCY_SCALE_FACTOR_def)
  have ey: "oy = Fin ((a + b) / 2 + (r - (a + b) / 2) / 2)"
    if "ly = Fin a" "hy = Fin b" "ry = Fin r"
      "exact rnd (a + b)" "exact rnd ((a + b) / 2)" "exact rnd (r - (a + b) / 2)"
      "exact rnd ((r - (a + b) / 2) * 0.5)"
      "exact rnd ((a + b) / 2 + (r - (a + b) / 2) * 0.5)" for a b r
    using scaled_exact [OF that(4-8)] that(1-3)
    by (simp add: oy_def cy_def scaled_def center_def FANCY_SCALE_FACTOR_def)
  have body: "let cx = num_div2 rnd (num_add rnd lx hx);
                 cy = num_div2 rnd (num_add rnd ly hy);
                 rx = orZero (n_x (ns ! i));
                 ry = orZero (n_y (ns ! i));
                 ox = num_add rnd cx (num_mul rnd (num_sub rnd rx cx) (Fin 0.5));
                 oy = num_add rnd cy (num_mul rnd (num_sub rnd ry cy) (Fin 0.5));
                 d = simNodes rnd ns ! i
             in length (simNodes rnd ns) = length ns
                \<and> n_id (sn_node d) = n_id (ns ! i)
                \<and> originX d = ox \<and> originY d = oy
                \<and> n_x (sn_node d) = ox \<and> n_y (sn_node d) = oy
                \<and> fx d = Some ox \<and> fy d = Some oy
                \<and> (\<forall>a b r. lx = Fin a \<and> hx = Fin b \<and> rx = Fin r
                       \<and> exact rnd (a + b) \<and> exact rnd ((a + b) / 2)
                       \<and> exact rnd (r - (a + b) / 2)
                       \<and> exact rnd ((r - (a + b) / 2) * 0.5)
                       \<and> exact rnd ((a + b) / 2 + (r - (a + b) / 2) * 0.5)
                     \<longrightarrow> ox = Fin ((a + b) / 2 + (r - (a + b) / 2) / 2))
                \<and> (\<forall>a b r. ly = Fin a \<and> hy = Fin b \<and> ry = Fin r
                       \<and> exact rnd (a + b) \<and> exact rnd ((a + b) / 2)
                       \<and> exact rnd (r - (a + b) / 2)
                       \<and> exact rnd ((r - (a + b) / 2) * 0.5)
                       \<and> exact rnd ((a + b) / 2 + (r - (a + b) / 2) * 0.5)
                     \<longrightarrow> oy = Fin ((a + b) / 2 + (r - (a + b) / 2) / 2))"
    unfolding Let_def cx_def [symmetric] cy_def [symmetric] rx_def [symmetric]
      ry_def [symmetric] ox_def [symmetric] oy_def [symmetric]
    using len fields ex ey by blast
  from blx bhx bly bhy body show ?thesis by blast
qed

lemma DBL_OVERFLOW_gt: "1000 < DBL_OVERFLOW"
  by (simp add: DBL_OVERFLOW_def)

lemma double_of_small: "\<bar>r\<bar> < 1000 \<Longrightarrow> double_of rnd r = Fin (rnd r)"
  using DBL_OVERFLOW_gt by (auto simp: double_of_def)

lemma double_of_HUGE: "double_of rnd (2 * HUGE) = PosInf"
proof -
  have "2 * HUGE = 2 ^ 1024"
    by (simp add: HUGE_def)
  moreover have "DBL_OVERFLOW \<le> 2 ^ 1024"
    by (simp add: DBL_OVERFLOW_def)
  ultimately show ?thesis
    by (simp add: double_of_def)
qed

lemmas eval_double =
  simNodes_def simNode_def scaled_def center_def num_sub_def FANCY_SCALE_FACTOR_def
  node_at_def Let_def

theorem fancy_origin_witness:
  "(1 :: nat) < length [node_at (js ''A'') (Fin 0) (Fin 0), node_at (js ''B'') (Fin 100) (Fin 40)]
   \<and> length (simNodes (\<lambda>r. r)
               [node_at (js ''A'') (Fin 0) (Fin 0), node_at (js ''B'') (Fin 100) (Fin 40)])
       = length [node_at (js ''A'') (Fin 0) (Fin 0), node_at (js ''B'') (Fin 100) (Fin 40)]
   \<and> simNodes (\<lambda>r. r) [node_at (js ''A'') (Fin 0) (Fin 0), node_at (js ''B'') (Fin 100) (Fin 40)] ! 1
     = \<lparr>sn_node = node_at (js ''B'') (Fin 75) (Fin 30),
        fx = Some (Fin 75), fy = Some (Fin 30), originX = Fin 75, originY = Fin 30\<rparr>"
proof -
  have i: "(1 :: nat) < length [node_at (js ''A'') (Fin 0) (Fin 0), node_at (js ''B'') (Fin 100) (Fin 40)]"
    by simp
  from fancy_origin [OF i, of "\<lambda>r. r"]
  have l: "length (simNodes (\<lambda>r. r)
               [node_at (js ''A'') (Fin 0) (Fin 0), node_at (js ''B'') (Fin 100) (Fin 40)])
       = length [node_at (js ''A'') (Fin 0) (Fin 0), node_at (js ''B'') (Fin 100) (Fin 40)]"
    unfolding Let_def by blast
  have c: "simNodes (\<lambda>r. r) [node_at (js ''A'') (Fin 0) (Fin 0), node_at (js ''B'') (Fin 100) (Fin 40)] ! 1
     = \<lparr>sn_node = node_at (js ''B'') (Fin 75) (Fin 30),
        fx = Some (Fin 75), fy = Some (Fin 30), originX = Fin 75, originY = Fin 30\<rparr>"
    by (simp add: eval_double double_of_small)
  show ?thesis
    by (intro conjI i l c)
qed

theorem fancy_origin_counterexample:
  "simNodes (\<lambda>r. r) [node_at (js ''A'') (Fin HUGE) (Fin 0)] ! 0
   = \<lparr>sn_node = node_at (js ''A'') NaN (Fin 0),
      fx = Some NaN, fy = Some (Fin 0), originX = NaN, originY = Fin 0\<rparr>"
proof -
  have c: "center (\<lambda>r. r) (Fin HUGE) (Fin HUGE) = PosInf"
    by (simp add: center_def double_of_HUGE)
  have x: "scaled (\<lambda>r. r) PosInf (Fin HUGE) = NaN"
    by (simp add: scaled_def num_sub_def FANCY_SCALE_FACTOR_def)
  have y: "scaled (\<lambda>r. r) (center (\<lambda>r. r) (Fin 0) (Fin 0)) (Fin 0) = Fin 0"
    by (simp add: scaled_def center_def num_sub_def FANCY_SCALE_FACTOR_def double_of_small)
  show ?thesis
    by (simp add: simNodes_def simNode_def node_at_def Let_def c x y)
qed

section \<open>Properties of the selection highlighting\<close>

lemma connectedLoop_iff:
  "(i \<in> connectedLoop S acc es) = (i \<in> acc \<or> sharesEdge es S i)"
proof (induction es arbitrary: acc)
  case Nil
  show ?case by (simp add: sharesEdge_def)
next
  case (Cons e es)
  show ?case
    unfolding connectedLoop.simps Let_def Cons.IH
    by (auto simp: sharesEdge_def)
qed

lemma filterE_total:
  "(\<And>x. x \<in> set xs \<Longrightarrow> p x = Inr (q x)) \<Longrightarrow> filterE p xs = Inr (filter q xs)"
  by (induction xs) simp_all

lemma updE_total:
  "(\<And>x. x \<in> set xs \<Longrightarrow> p x = Inr (q x)) \<Longrightarrow>
   updE p f xs = Inr (map (\<lambda>x. if q x then f x else x) xs)"
  by (induction xs) simp_all

lemma nodeHas_total:
  "isFancyMode \<or> nd_key n \<noteq> None \<Longrightarrow> nodeHas isFancyMode p n = Inr (keyHas p n)"
  by (auto simp: nodeHas_def keyHas_def titleText_def split: option.splits)

lemma edgeHas_total:
  "isFancyMode \<or> ed_title e \<noteq> None \<Longrightarrow>
   \<exists>b. edgeHas isFancyMode S e = Inr b"
  by (auto simp: edgeHas_def titleText_def split: option.splits)

lemma updE_succeeds:
  "(\<And>x. x \<in> set xs \<Longrightarrow> \<exists>b. p x = Inr b) \<Longrightarrow> \<exists>ys. updE p f xs = Inr ys"
proof (induction xs)
  case Nil
  show ?case by simp
next
  case (Cons x xs)
  then obtain b where b: "p x = Inr b" by auto
  from Cons obtain ys where "updE p f xs = Inr ys" by auto
  with b show ?case by simp
qed

lemma selNodes_put [simp]:
  "selNodes isFancyMode (putEdges isFancyMode es (putNodes isFancyMode ns s)) = ns"
  by (simp add: selNodes_def putEdges_def putNodes_def)

lemma keyHas_marks [simp]:
  "keyHas p (clearNode n) = keyHas p n"
  "keyHas p (markSelected n) = keyHas p n"
  "keyHas p (n\<lparr>nd_opacity := v\<rparr>) = keyHas p n"
  by (simp_all add: keyHas_def clearNode_def markSelected_def)

lemma highlight_marks:
  assumes "S \<noteq> []"
    and "isFancyMode \<or> ((\<forall>n \<in> set (sv_nodes s). nd_key n \<noteq> None)
                          \<and> (\<forall>e \<in> set (sv_edges s). ed_title e \<noteq> None))"
  shows "\<exists>s'. highlight isFancyMode (Some S) (Some l) (Some s) = Inr (Some s')
           \<and> map nd_key (selNodes isFancyMode s') = map nd_key (selNodes isFancyMode s)
           \<and> map nd_connected (selNodes isFancyMode s')
               = map (\<lambda>n. case nd_key n of None \<Rightarrow> False
                                | Some i \<Rightarrow> sharesEdge (edges l) S i)
                     (selNodes isFancyMode s)"
proof -
  define ns0 where "ns0 = map clearNode (selNodes isFancyMode s)"
  define ns1 where "ns1 = map (\<lambda>n. n\<lparr>nd_opacity := Some 0.1\<rparr>) ns0"
  define es1 where
    "es1 = map (\<lambda>e. e\<lparr>ed_opacity := Some 0.1\<rparr>) (map clearEdge (selEdges isFancyMode s))"
  define C where "C = connectedLoop S {} (edges l)"
  define ns2 where "ns2 = map (\<lambda>n. if keyHas (\<lambda>i. i = S) n then markSelected n else n) ns1"
  define ns3 where "ns3 = map (\<lambda>n. if keyHas (\<lambda>i. i \<in> C) n then markConnected n else n) ns2"
  have keys: "isFancyMode \<or> (\<forall>n \<in> set (selNodes isFancyMode s). nd_key n \<noteq> None)"
    using assms(2) by (auto simp: selNodes_def)
  have k1: "isFancyMode \<or> nd_key n \<noteq> None" if "n \<in> set ns1" for n
    using that keys by (auto simp: ns1_def ns0_def clearNode_def)
  have u1: "updE (nodeHas isFancyMode (\<lambda>i. i = S)) markSelected ns1 = Inr ns2"
    unfolding ns2_def by (rule updE_total) (rule nodeHas_total, rule k1)
  have k2: "isFancyMode \<or> nd_key n \<noteq> None" if "n \<in> set ns2" for n
  proof -
    from that obtain m where "m \<in> set ns1" and "nd_key n = nd_key m"
      by (auto simp: ns2_def markSelected_def split: if_splits)
    with k1 [of m] show ?thesis by simp
  qed
  have u2: "updE (nodeHas isFancyMode (\<lambda>i. i \<in> C)) markConnected ns2 = Inr ns3"
    unfolding ns3_def by (rule updE_total) (rule nodeHas_total, rule k2)
  have "\<exists>b. edgeHas isFancyMode S e = Inr b" if "e \<in> set es1" for e
  proof (rule edgeHas_total)
    from that assms(2) show "isFancyMode \<or> ed_title e \<noteq> None"
      by (cases isFancyMode) (auto simp: es1_def selEdges_def clearEdge_def)
  qed
  then obtain es2 where
    u3: "updE (edgeHas isFancyMode S) (markEdge isFancyMode) es1 = Inr es2"
    using updE_succeeds by blast
  define s' where
    "s' = putEdges isFancyMode es2
            (putNodes isFancyMode ns3 (s\<lparr>sv_has_selection := True\<rparr>))"
  have o: "orElse (Some S) [] = S"
    using assms(1) by (cases S) simp_all
  have run: "highlight isFancyMode (Some S) (Some l) (Some s) = Inr (Some s')"
    using assms(1) u1 u2 u3
    unfolding ns0_def ns1_def es1_def C_def s'_def highlight_def Let_def
    by (simp add: o)
  have sel: "selNodes isFancyMode s' = ns3"
    by (simp add: s'_def)
  have key3: "map nd_key ns3 = map nd_key (selNodes isFancyMode s)"
    by (simp add: ns3_def ns2_def ns1_def ns0_def comp_def markConnected_def markSelected_def
          clearNode_def)
  have conn3: "map nd_connected ns3
        = map (\<lambda>n. keyHas (\<lambda>i. i \<in> C) n) (selNodes isFancyMode s)"
    by (simp add: ns3_def ns2_def ns1_def ns0_def comp_def markConnected_def)
       (simp add: markSelected_def clearNode_def)
  have "keyHas (\<lambda>i. i \<in> C) n
        = (case nd_key n of None \<Rightarrow> False | Some i \<Rightarrow> sharesEdge (edges l) S i)" for n
    by (simp add: keyHas_def C_def connectedLoop_iff split: option.splits)
  with conn3 have conn: "map nd_connected ns3
        = map (\<lambda>n. case nd_key n of None \<Rightarrow> False | Some i \<Rightarrow> sharesEdge (edges l) S i)
            (selNodes isFancyMode s)"
    by simp
  from run sel key3 conn show ?thesis by simp
qed

lemma simNodes_ids: "map (\<lambda>d. n_id (sn_node d)) (simNodes rnd ns) = map n_id ns"
  by (simp add: simNodes_def simNode_def Let_def comp_def)

lemma forceLink_ok:
  assumes "\<forall>e \<in> set es. e_source e \<in> n_id ` set ns \<and> e_target e \<in> n_id ` set ns"
  shows "forceLink (simNodes rnd ns) es = Inr ()"
  using assms by (simp add: forceLink_def simNodes_ids list_all_iff)

lemma forceLink_dangling:
  assumes "e \<in> set es" and "e_source e \<notin> n_id ` set ns \<or> e_target e \<notin> n_id ` set ns"
  shows "forceLink (simNodes rnd ns) es = Inl NodeNotFound"
  using assms by (auto simp: forceLink_def simNodes_ids list_all_iff)

lemma colourEdges_ok:
  assumes "\<forall>el \<in> set els. ed_title el \<noteq> None"
  shows "colourEdges es els = Inr ()"
proof (induction es)
  case Nil
  show ?case by simp
next
  case (Cons e es)
  have "filterE (\<lambda>el. case titleText (ed_title el) of
                         Inl err \<Rightarrow> Inl err
                       | Inr title \<Rightarrow> Inr (title = e_id e)) els
        = Inr (filter (\<lambda>el. ed_title el = Some (e_id e)) els)"
    using assms by (intro filterE_total) (auto simp: titleText_def)
  with Cons show ?case by simp
qed

lemma svgRef_render: "svgRef (render s v) = Some (s\<lparr>sv_zoom := savedTransform v\<rparr>)"
  by (simp add: render_def setupZoom_def zoomed_def Let_def)

text \<open>
  C3 (as amended). For every non-empty selected node id \<open>S\<close> and every parsed graph
  whose diagram mounts (in fancy mode: the source and the target of every edge are ids
  of nodes; in static mode: the markup has an \<open>svg\<close> and every node-group and
  edge-group has a \<open>title\<close> child), the render effect and the highlighting effect end
  and the nodes marked \<open>connected\<close> are exactly the nodes of the graph whose id shares
  an edge with \<open>S\<close>.
\<close>

theorem connected_marks:
  assumes "S \<noteq> []"
    and "parse pf rp (Some doc) = Some l"
    and "if isFancyMode
         then \<forall>e \<in> set (edges l). e_source e \<in> n_id ` set (nodes l)
                                     \<and> e_target e \<in> n_id ` set (nodes l)
         else doc_svg doc \<and> (\<forall>g \<in> set (doc_nodes doc). ng_title g \<noteq> None)
              \<and> (\<forall>g \<in> set (doc_edges doc). eg_title g \<noteq> None)"
  shows "\<exists>v' s s'.
           renderEffect rnd geom box isFancyMode (Some l) (Some doc) v = Inr v'
         \<and> svgRef v' = Some s
         \<and> highlight isFancyMode (Some S) (Some l) (Some s) = Inr (Some s')
         \<and> map nd_connected (selNodes isFancyMode s')
             = map (\<lambda>n. sharesEdge (edges l) S (n_id n)) (nodes l)"
proof (cases isFancyMode)
  case True
  define s0 where
    "s0 = \<lparr>sv_nodes = [], sv_fancy_nodes = map fancyNode (simNodes rnd (nodes l)),
            sv_edges = [], sv_lines = map fancyLine (edges l), sv_has_selection = False,
            sv_zoom = zoomIdentity, sv_width = fst box, sv_height = snd box\<rparr>"
  define s where "s = s0\<lparr>sv_zoom := savedTransform v\<rparr>"
  from assms(3) True
  have "forceLink (simNodes rnd (nodes l)) (edges l) = Inr ()"
    by (intro forceLink_ok) simp
  then have r: "renderEffect rnd geom box isFancyMode (Some l) (Some doc) v = Inr (render s0 v)"
    using True by (simp add: renderEffect_def Let_def s0_def)
  have sr: "svgRef (render s0 v) = Some s"
    by (simp add: svgRef_render s_def)
  from highlight_marks [OF assms(1), of isFancyMode s l] True obtain s' where
    h: "highlight isFancyMode (Some S) (Some l) (Some s) = Inr (Some s')"
    and c: "map nd_connected (selNodes isFancyMode s')
            = map (\<lambda>n. case nd_key n of None \<Rightarrow> False
                             | Some i \<Rightarrow> sharesEdge (edges l) S i)
                  (selNodes isFancyMode s)"
    by auto
  have "selNodes isFancyMode s = map fancyNode (simNodes rnd (nodes l))"
    using True by (simp add: selNodes_def s_def s0_def)
  then have "map (\<lambda>n. case nd_key n of None \<Rightarrow> False
                        | Some i \<Rightarrow> sharesEdge (edges l) S i) (selNodes isFancyMode s)
             = map (\<lambda>i. sharesEdge (edges l) S i)
                 (map (\<lambda>d. n_id (sn_node d)) (simNodes rnd (nodes l)))"
    by (simp add: fancyNode_def comp_def)
  also have "\<dots> = map (\<lambda>n. sharesEdge (edges l) S (n_id n)) (nodes l)"
    by (simp add: simNodes_ids comp_def)
  finally have "map nd_connected (selNodes isFancyMode s')
                = map (\<lambda>n. sharesEdge (edges l) S (n_id n)) (nodes l)"
    using c by simp
  with r sr h show ?thesis by blast
next
  case False
  from assms(3) False have svg: "doc_svg doc"
    and nt: "\<forall>g \<in> set (doc_nodes doc). ng_title g \<noteq> None"
    and et: "\<forall>g \<in> set (doc_edges doc). eg_title g \<noteq> None"
    by simp_all
  define s0 where
    "s0 = \<lparr>sv_nodes = map (staticNode geom) (doc_nodes doc), sv_fancy_nodes = [],
            sv_edges = map staticEdge (doc_edges doc), sv_lines = [],
            sv_has_selection = False, sv_zoom = zoomIdentity,
            sv_width = fst box, sv_height = snd box\<rparr>"
  define s where "s = s0\<lparr>sv_zoom := savedTransform v\<rparr>"
  have "colourEdges (edges l) (map staticEdge (doc_edges doc)) = Inr ()"
    using et by (intro colourEdges_ok) (simp add: staticEdge_def)
  then have r: "renderEffect rnd geom box isFancyMode (Some l) (Some doc) v = Inr (render s0 v)"
    using False svg by (simp add: renderEffect_def Let_def s0_def)
  have sr: "svgRef (render s0 v) = Some s"
    by (simp add: svgRef_render s_def)
  have titles: "isFancyMode \<or> ((\<forall>n \<in> set (sv_nodes s). nd_key n \<noteq> None)
                               \<and> (\<forall>e \<in> set (sv_edges s). ed_title e \<noteq> None))"
    using nt et by (simp add: s_def s0_def staticNode_def staticEdge_def)
  from highlight_marks [OF assms(1) titles, of l] obtain s' where
    h: "highlight isFancyMode (Some S) (Some l) (Some s) = Inr (Some s')"
    and c: "map nd_connected (selNodes isFancyMode s')
            = map (\<lambda>n. case nd_key n of None \<Rightarrow> False
                             | Some i \<Rightarrow> sharesEdge (edges l) S i)
                  (selNodes isFancyMode s)"
    by auto
  have nl: "nodes l = extractNodes pf rp (doc_nodes doc)"
    using assms(2) by (auto simp: parse_def)
  have "selNodes isFancyMode s = map (staticNode geom) (doc_nodes doc)"
    using False by (simp add: selNodes_def s_def s0_def)
  then have "map (\<lambda>n. case nd_key n of None \<Rightarrow> False
                        | Some i \<Rightarrow> sharesEdge (edges l) S i) (selNodes isFancyMode s)
             = map (\<lambda>g. case ng_title g of None \<Rightarrow> False
                            | Some i \<Rightarrow> sharesEdge (edges l) S i) (doc_nodes doc)"
    by (simp add: staticNode_def comp_def)
  also have "\<dots> = map (\<lambda>g. sharesEdge (edges l) S (orElse (ng_title g) [])) (doc_nodes doc)"
  proof (rule map_cong [OF refl])
    fix g assume "g \<in> set (doc_nodes doc)"
    with nt obtain t where t: "ng_title g = Some t" by auto
    have "orElse (Some t) [] = t" by (cases t) simp_all
    with t show "(case ng_title g of None \<Rightarrow> False | Some i \<Rightarrow> sharesEdge (edges l) S i)
                 = sharesEdge (edges l) S (orElse (ng_title g) [])"
      by simp
  qed
  also have "\<dots> = map (\<lambda>i. sharesEdge (edges l) S i) (map n_id (nodes l))"
    unfolding nl extractNodes_ids by (simp add: comp_def)
  finally have "map nd_connected (selNodes isFancyMode s')
                = map (\<lambda>n. sharesEdge (edges l) S (n_id n)) (nodes l)"
    using c by (simp add: comp_def)
  with r sr h show ?thesis by blast
qed

lemmas eval_highlight =
  highlight_def Let_def selNodes_def selEdges_def putNodes_def putEdges_def nodeHas_def
  edgeHas_def titleText_def clearNode_def clearEdge_def markSelected_def markConnected_def
  markEdge_def node_el_def edge_el_def svg_of_def layout_of_def

lemmas eval_parse =
  parse_def doc_of_def extractNode_def nodeCenter_def nodeShape_def extractEdge_def
  split_title_def eval_title getTypeColor_def Let_def

theorem connected_marks_witness:
  "js ''A'' \<noteq> []
   \<and> (\<exists>v' s s'.
         renderEffect (\<lambda>r. r) (\<lambda>g. None) (800, 600) False
           (parse (\<lambda>s. NaN) (\<lambda>s a b. ([], NaN))
              (Some (doc_of [js ''A'', js ''B'', js ''C'', js ''D'']
                            [js ''A->B'', js ''C--A'', js ''C->D''])))
           (Some (doc_of [js ''A'', js ''B'', js ''C'', js ''D'']
                         [js ''A->B'', js ''C--A'', js ''C->D'']))
           initialViewer = Inr v'
       \<and> svgRef v' = Some s
       \<and> highlight False (Some (js ''A''))
           (parse (\<lambda>s. NaN) (\<lambda>s a b. ([], NaN))
              (Some (doc_of [js ''A'', js ''B'', js ''C'', js ''D'']
                            [js ''A->B'', js ''C--A'', js ''C->D''])))
           (Some s) = Inr (Some s')
       \<and> map nd_connected (selNodes False s') = [False, True, True, False])"
proof -
  define doc where
    "doc = doc_of [js ''A'', js ''B'', js ''C'', js ''D''] [js ''A->B'', js ''C--A'', js ''C->D'']"
  define l where
    "l = \<lparr>nodes = extractNodes (\<lambda>s. NaN) (\<lambda>s a b. ([], NaN)) (doc_nodes doc),
           edges = extractEdges (doc_edges doc),
           viewBox = js ''0 0 100 100'', transform = []\<rparr>"
  have h1: "js ''A'' \<noteq> []"
    by (simp add: js_def)
  have h2: "parse (\<lambda>s. NaN) (\<lambda>s a b. ([], NaN)) (Some doc) = Some l"
    by (simp add: parse_def l_def doc_def doc_of_def)
  have h3: "if False
         then \<forall>e \<in> set (edges l). e_source e \<in> n_id ` set (nodes l)
                                     \<and> e_target e \<in> n_id ` set (nodes l)
         else doc_svg doc \<and> (\<forall>g \<in> set (doc_nodes doc). ng_title g \<noteq> None)
              \<and> (\<forall>g \<in> set (doc_edges doc). eg_title g \<noteq> None)"
    by (simp add: doc_def doc_of_def)
  have ids: "map n_id (nodes l) = [js ''A'', js ''B'', js ''C'', js ''D'']"
    by (simp add: l_def doc_def doc_of_def extractNode_id js_def)
  have es: "map (\<lambda>e. (e_source e, e_target e)) (edges l)
            = [(js ''A'', js ''B''), (js ''C'', js ''A''), (js ''C'', js ''D'')]"
    by (simp add: l_def doc_def doc_of_def extractEdge_def split_title_def eval_title)
  have sh: "sharesEdge (edges l) S i
            = (\<exists>p \<in> set (map (\<lambda>e. (e_source e, e_target e)) (edges l)).
                 (fst p = S \<and> snd p = i) \<or> (snd p = S \<and> fst p = i))" for S i
    by (simp add: sharesEdge_def)
  have m: "map (\<lambda>n. sharesEdge (edges l) (js ''A'') (n_id n)) (nodes l)
           = [False, True, True, False]"
  proof -
    have "map (\<lambda>n. sharesEdge (edges l) (js ''A'') (n_id n)) (nodes l)
          = map (\<lambda>i. sharesEdge (edges l) (js ''A'') i) (map n_id (nodes l))"
      by (simp add: comp_def)
    also have "\<dots> = [False, True, True, False]"
      unfolding ids sh es by (simp add: js_def)
    finally show ?thesis .
  qed
  from connected_marks [OF h1 h2 h3, of "\<lambda>r. r" "\<lambda>g. None" "(800, 600)" initialViewer]
  obtain v' s s' where
    r1: "renderEffect (\<lambda>r. r) (\<lambda>g. None) (800, 600) False (Some l) (Some doc) initialViewer
       = Inr v'"
    and r2: "svgRef v' = Some s"
    and r3: "highlight False (Some (js ''A'')) (Some l) (Some s) = Inr (Some s')"
    and r4: "map nd_connected (selNodes False s')
       = map (\<lambda>n. sharesEdge (edges l) (js ''A'') (n_id n)) (nodes l)"
    by blast
  have r5: "map nd_connected (selNodes False s') = [False, True, True, False]"
    using r4 m by (rule trans)
  have "\<exists>v' s s'.
         renderEffect (\<lambda>r. r) (\<lambda>g. None) (800, 600) False (Some l) (Some doc) initialViewer
           = Inr v'
       \<and> svgRef v' = Some s
       \<and> highlight False (Some (js ''A'')) (Some l) (Some s) = Inr (Some s')
       \<and> map nd_connected (selNodes False s') = [False, True, True, False]"
    by (intro exI [of _ v'] exI [of _ s] exI [of _ s'] conjI r1 r2 r3 r5)
  with h1 show ?thesis
    unfolding h2 [symmetric] doc_def by (rule conjI)
qed

theorem empty_selection_counterexample:
  "sharesEdge (extractEdges [\<lparr>eg_title = Some (js ''->B''), eg_text = None\<rparr>]) [] (js ''B'')
   \<and> highlight True (Some [])
        (Some (layout_of (extractEdges [\<lparr>eg_title = Some (js ''->B''), eg_text = None\<rparr>])))
        (Some (svg_of [node_el (Some []), node_el (Some (js ''B''))] []))
       = Inr (Some (svg_of [node_el (Some []), node_el (Some (js ''B''))] []))
   \<and> map nd_connected (sv_fancy_nodes (svg_of [node_el (Some []), node_el (Some (js ''B''))] []))
       = [False, False]
   \<and> highlight False (Some (js ''A''))
        (Some (layout_of (extractEdges [\<lparr>eg_title = Some (js ''A->B''), eg_text = None\<rparr>])))
        (Some (svg_of [node_el (Some (js ''A'')), node_el None] []))
       = Inl TypeError
   \<and> renderEffect (\<lambda>r. r) (\<lambda>g. None) (800, 600) True
        (parse (\<lambda>s. NaN) (\<lambda>s a b. ([], NaN)) (Some (doc_of [js ''A''] [js ''A->B''])))
        (Some (doc_of [js ''A''] [js ''A->B''])) initialViewer
       = Inl NodeNotFound"
proof -
  have e1: "extractEdges [\<lparr>eg_title = Some (js ''->B''), eg_text = None\<rparr>]
        = [\<lparr>e_id = js ''->B'', e_source = [], e_target = js ''B'', e_label = None,
            e_displayColor = Some UNTYPED_COLOR\<rparr>]"
    by (simp add: extractEdge_def split_title_def eval_title getTypeColor_def)
  have e2: "extractEdges [\<lparr>eg_title = Some (js ''A->B''), eg_text = None\<rparr>]
        = [\<lparr>e_id = js ''A->B'', e_source = js ''A'', e_target = js ''B'', e_label = None,
            e_displayColor = Some UNTYPED_COLOR\<rparr>]"
    by (simp add: extractEdge_def split_title_def eval_title getTypeColor_def)
  have e3: "renderEffect (\<lambda>r. r) (\<lambda>g. None) (800, 600) True
        (parse (\<lambda>s. NaN) (\<lambda>s a b. ([], NaN)) (Some (doc_of [js ''A''] [js ''A->B''])))
        (Some (doc_of [js ''A''] [js ''A->B''])) initialViewer
       = Inl NodeNotFound"
    by (simp add: renderEffect_def forceLink_def simNodes_ids eval_parse js_def del: set_map)
  have e4: "sharesEdge [\<lparr>e_id = js ''->B'', e_source = [], e_target = js ''B'', e_label = None,
            e_displayColor = Some UNTYPED_COLOR\<rparr>] [] (js ''B'')
   \<and> highlight True (Some [])
        (Some (layout_of [\<lparr>e_id = js ''->B'', e_source = [], e_target = js ''B'', e_label = None,
            e_displayColor = Some UNTYPED_COLOR\<rparr>]))
        (Some (svg_of [node_el (Some []), node_el (Some (js ''B''))] []))
       = Inr (Some (svg_of [node_el (Some []), node_el (Some (js ''B''))] []))
   \<and> map nd_connected (sv_fancy_nodes (svg_of [node_el (Some []), node_el (Some (js ''B''))] []))
       = [False, False]
   \<and> highlight False (Some (js ''A''))
        (Some (layout_of [\<lparr>e_id = js ''A->B'', e_source = js ''A'', e_target = js ''B'', e_label = None,
            e_displayColor = Some UNTYPED_COLOR\<rparr>]))
        (Some (svg_of [node_el (Some (js ''A'')), node_el None] []))
       = Inl TypeError"
    by (simp add: sharesEdge_def eval_highlight js_def)
  show ?thesis
    unfolding e1 e2 using e3 e4 by (simp only: simp_thms)
qed

section \<open>Properties of the view transform\<close>

lemma inExtent_identity: "inExtent zoomIdentity"
  by (simp add: inExtent_def zoomIdentity_def)

lemma d3_scaleBy_inExtent:
  "scaleExtent zoom = (0.01, 200) \<Longrightarrow> inExtent (d3_scaleBy zoom t factor p)"
  by (simp add: d3_scaleBy_def inExtent_def Let_def)

lemma d3_translateBy_inExtent: "inExtent t \<Longrightarrow> inExtent (d3_translateBy t dx dy)"
  by (simp add: d3_translateBy_def inExtent_def)

lemma viewer_ok_initial: "viewer_ok initialViewer"
  by (simp add: viewer_ok_def initialViewer_def inExtent_identity)

lemma viewer_ok_zoomed:
  "viewer_ok v \<Longrightarrow> inExtent t \<Longrightarrow> viewer_ok (zoomed v s t)"
  by (simp add: viewer_ok_def zoomed_def)

lemma viewer_ok_render: "viewer_ok v \<Longrightarrow> viewer_ok (render s v)"
  by (simp add: viewer_ok_def render_def setupZoom_def zoomed_def Let_def)

lemma viewer_ok_performZoom:
  assumes "viewer_ok v" and "performZoom direction isFancyMode selectedNodeId v = Inr v1"
  shows "viewer_ok v1"
proof (cases "svgRef v")
  case None
  with assms show ?thesis by (simp add: performZoom_def)
next
  case s: (Some s)
  show ?thesis
  proof (cases "zoomBehaviorRef v")
    case None
    with s assms show ?thesis by (simp add: performZoom_def)
  next
    case (Some zoom)
    with assms(1) have ext: "scaleExtent zoom = (0.01, 200)"
      by (simp add: viewer_ok_def)
    from assms(2) s Some obtain p where
      "v1 = zoomed v s (d3_scaleBy zoom (sv_zoom s)
                          (if direction = In then 1.3 else 1 / 1.3) p)"
      by (auto simp: performZoom_def Let_def split: sum.splits if_splits)
    with assms(1) ext show ?thesis
      by (simp add: viewer_ok_zoomed d3_scaleBy_inExtent)
  qed
qed

lemma viewer_ok_wheel:
  assumes "viewer_ok v" and "wheel wheelFactor isFancyMode selectedNodeId e v = Inr v1"
  shows "viewer_ok v1"
proof (cases "d3_wheeled wheelFactor selectedNodeId e v")
  case None
  with assms(2) have "handleWheel isFancyMode selectedNodeId e v = Inr v1"
    by (simp add: wheel_def)
  with assms(1) show ?thesis
    by (auto simp: handleWheel_def split: if_splits dest: viewer_ok_performZoom)
next
  case (Some v2)
  with assms(2) have v1: "v1 = v2" by (simp add: wheel_def)
  from Some obtain s zoom where s: "svgRef v = Some s" and z: "zoomBehaviorRef v = Some zoom"
    and v2: "v2 = zoomed v s (d3_scaleBy zoom (sv_zoom s) (wheelFactor e) (ev_pointer e))"
    by (auto simp: d3_wheeled_def split: option.splits if_splits)
  from assms(1) z have "scaleExtent zoom = (0.01, 200)"
    by (simp add: viewer_ok_def)
  with assms(1) v1 v2 show ?thesis
    by (simp add: viewer_ok_zoomed d3_scaleBy_inExtent)
qed

lemma viewer_ok_pan:
  assumes "viewer_ok v" and "pan dx dy v = Inr v1"
  shows "viewer_ok v1"
proof (cases "svgRef v")
  case None
  with assms show ?thesis by (simp add: pan_def)
next
  case s: (Some s)
  show ?thesis
  proof (cases "zoomBehaviorRef v")
    case None
    with s assms show ?thesis by (simp add: pan_def)
  next
    case (Some zoom)
    with s assms(2) have v1: "v1 = zoomed v s (d3_translateBy (sv_zoom s) dx dy)"
      by (simp add: pan_def)
    from assms(1) s have "inExtent (sv_zoom s)" by (simp add: viewer_ok_def)
    with assms(1) v1 show ?thesis
      by (simp add: viewer_ok_zoomed d3_translateBy_inExtent)
  qed
qed

lemma viewer_ok_resetZoom:
  assumes "viewer_ok v" and "resetZoom v = Inr v1"
  shows "viewer_ok v1"
  using assms
  by (auto simp: resetZoom_def viewer_ok_def zoomed_def inExtent_identity
           split: option.splits)

lemma viewer_ok_exportAsPng:
  assumes "viewer_ok v" and "exportAsPng v = Inr v1"
  shows "viewer_ok v1"
  using assms
  by (auto simp: exportAsPng_def viewer_ok_def split: option.splits)

lemma viewer_ok_act:
  assumes "viewer_ok v" and "act wheelFactor isFancyMode selectedNodeId a v = Inr v1"
  shows "viewer_ok v1"
proof (cases a)
  case ZoomIn
  with assms show ?thesis
    by (auto simp: act_def zoomIn_def dest: viewer_ok_performZoom)
next
  case ZoomOut
  with assms show ?thesis
    by (auto simp: act_def zoomOut_def dest: viewer_ok_performZoom)
next
  case (Pan dx dy)
  with assms show ?thesis
    by (auto simp: act_def dest: viewer_ok_pan)
next
  case ResetZoom
  with assms show ?thesis
    by (auto simp: act_def dest: viewer_ok_resetZoom)
next
  case ExportAsPng
  with assms show ?thesis
    by (auto simp: act_def dest: viewer_ok_exportAsPng)
next
  case (WheelEvent e)
  with assms show ?thesis
    by (auto simp: act_def dest: viewer_ok_wheel)
next
  case (Render s)
  with assms show ?thesis
    by (auto simp: act_def viewer_ok_render)
qed

lemma viewer_ok_run: "viewer_ok v \<Longrightarrow> viewer_ok (run wheelFactor as v)"
proof (induction as arbitrary: v)
  case Nil
  then show ?case by simp
next
  case (Cons x as)
  obtain isFancyMode selectedNodeId a where x: "x = (isFancyMode, selectedNodeId, a)"
    by (cases x)
  show ?case
  proof (cases "act wheelFactor isFancyMode selectedNodeId a v")
    case (Inl e)
    with x Cons show ?thesis by simp
  next
    case (Inr v1)
    with Cons.prems have "viewer_ok v1" by (rule viewer_ok_act)
    with x Inr Cons.IH show ?thesis by simp
  qed
qed

text \<open>
  C6. From the initial refs, after every sequence of renders, \<open>zoomIn\<close>, \<open>zoomOut\<close>,
  wheel events, pans, resets and exports, under any props and any wheel factor, the
  scale of the saved transform and of the transform of the mounted diagram lies
  between 0.01 and 200.
\<close>

theorem scale_bounded:
  "0.01 \<le> t_k (savedTransform (run wheelFactor as initialViewer))
   \<and> t_k (savedTransform (run wheelFactor as initialViewer)) \<le> 200
   \<and> (case svgRef (run wheelFactor as initialViewer) of
         None \<Rightarrow> True
       | Some s \<Rightarrow> 0.01 \<le> t_k (sv_zoom s) \<and> t_k (sv_zoom s) \<le> 200)"
  using viewer_ok_run [OF viewer_ok_initial, of wheelFactor as]
  by (simp add: viewer_ok_def inExtent_def split: option.splits)

lemmas eval_wheel =
  wheel_def d3_wheeled_def zoomFilter_def handleWheel_def wheel_at_def

lemmas eval_zoom =
  run.simps act_def zoomIn_def zoomOut_def performZoom_def render_def setupZoom_def
  zoomed_def d3_scaleBy_def initialViewer_def zoomIdentity_def svg_of_def Let_def

theorem scale_bounded_witness:
  "t_k (savedTransform
          (run (\<lambda>e. 2)
             [(False, None, Render (svg_of [] [])), (False, None, ZoomIn),
              (False, None, ZoomIn)]
             initialViewer)) = 1.69
   \<and> t_k (savedTransform
          (run (\<lambda>e. 1000)
             [(False, None, Render (svg_of [] [])), (False, None, WheelEvent (wheel_at (- 100))),
              (False, None, ZoomIn)]
             initialViewer)) = 200
   \<and> t_k (savedTransform
          (run (\<lambda>e. 1 / 1000)
             [(False, None, Render (svg_of [] [])), (False, None, WheelEvent (wheel_at 100)),
              (False, None, ZoomOut)]
             initialViewer)) = 0.01"
proof -
  have a: "200 \<le> t_k (savedTransform
          (run (\<lambda>e. 1000)
             [(False, None, Render (svg_of [] [])), (False, None, WheelEvent (wheel_at (- 100))),
              (False, None, ZoomIn)]
             initialViewer))"
    by (simp add: eval_zoom eval_wheel)
  have b: "t_k (savedTransform
          (run (\<lambda>e. 1 / 1000)
             [(False, None, Render (svg_of [] [])), (False, None, WheelEvent (wheel_at 100)),
              (False, None, ZoomOut)]
             initialViewer)) \<le> 0.01"
    by (simp add: eval_zoom eval_wheel)
  have c: "t_k (savedTransform
          (run (\<lambda>e. 2)
             [(False, None, Render (svg_of [] [])), (False, None, ZoomIn),
              (False, None, ZoomIn)]
             initialViewer)) = 1.69"
    by (simp add: eval_zoom)
  from a b c
    scale_bounded [of "\<lambda>e. 1000"
      "[(False, None, Render (svg_of [] [])), (False, None, WheelEvent (wheel_at (- 100))),
        (False, None, ZoomIn)]"]
    scale_bounded [of "\<lambda>e. 1 / 1000"
      "[(False, None, Render (svg_of [] [])), (False, None, WheelEvent (wheel_at 100)),
        (False, None, ZoomOut)]"]
  show ?thesis by linarith
qed










lemma unmounted_noop:
  assumes "svgRef v = None \<or> zoomBehaviorRef v = None"
  shows "zoomIn isFancyMode selectedNodeId v = Inr v"
    and "zoomOut isFancyMode selectedNodeId v = Inr v"
    and "pan dx dy v = Inr v"
    and "resetZoom v = Inr v"
  using assms
  by (auto simp: zoomIn_def zoomOut_def performZoom_def pan_def resetZoom_def
           split: option.splits)

lemma unmounted_export_noop: "svgRef v = None \<Longrightarrow> exportAsPng v = Inr v"
  by (simp add: exportAsPng_def)

lemma static_lookup_miss:
  assumes "\<forall>n \<in> set (sv_nodes s). nd_key n \<noteq> None \<and> nd_key n \<noteq> Some S"
  shows "focalPoint False S s c = Inr c"
proof -
  have "filterE (nodeHas False (\<lambda>t. t = S)) (sv_nodes s)
        = Inr (filter (keyHas (\<lambda>t. t = S)) (sv_nodes s))"
    using assms by (intro filterE_total nodeHas_total) simp
  moreover have "filter (keyHas (\<lambda>t. t = S)) (sv_nodes s) = []"
    using assms by (auto simp: filter_empty_conv keyHas_def split: option.splits)
  ultimately show ?thesis by (simp add: focalPoint_def)
qed

text \<open>
  C8. In fancy mode, with a selected id that no fancy node has, \<open>zoomIn\<close> does not
  fall back to the centre of the viewport: reading the datum of the empty selection
  throws.
\<close>

theorem fancy_lookup_miss_throws:
  "zoomIn True (Some (js ''Z''))
     (render (svg_of [node_el (Some (js ''A'')), node_el (Some (js ''B''))] []) initialViewer)
   = Inl TypeError"
  by (simp add: zoomIn_def performZoom_def focalPoint_def datum_def render_def
        setupZoom_def zoomed_def initialViewer_def svg_of_def node_el_def js_def Let_def)

section \<open>Properties of the selection toggle\<close>

lemma handleNodeToggle_law:
  "handleNodeToggle (Some X) (Some X) = None
   \<and> (sel \<noteq> Some X \<longrightarrow>
        handleNodeToggle (Some X) sel = Some X
        \<and> handleNodeToggle (Some X) (handleNodeToggle (Some X) sel) = None)"
  by (simp add: handleNodeToggle_def)

lemma sidebar_toggle:
  "app_selectedNodeId a \<noteq> Some X \<Longrightarrow>
   app_selectedNodeId (sidebarClick (Some X) a) = Some X
   \<and> app_selectedNodeId (sidebarClick (Some X) (sidebarClick (Some X) a)) = None"
  by (simp add: sidebarClick_def handleNodeToggle_def)

lemma diagram_click_twice:
  "app_listenerSelectedNodeId a \<noteq> Some X \<Longrightarrow>
   app_selectedNodeId (diagramClick (Some X) (diagramClick (Some X) a)) = Some X"
  by (simp add: diagramClick_def handleNodeToggle_def)

text \<open>
  C7. The diagram is mounted while nothing is selected; the node \<open>A\<close> is clicked in the
  diagram and then clicked again. The second click does not clear the selection: the
  click listeners compare with the \<open>selectedNodeId\<close> of the render that installed
  them, and \<open>A\<close> stays selected.
\<close>

theorem diagram_click_stale:
  "app_selectedNodeId
     (diagramClick (Some (js ''A''))
        (installListeners \<lparr>app_selectedNodeId = None, app_listenerSelectedNodeId = None\<rparr>))
   = Some (js ''A'')
   \<and> app_selectedNodeId
     (diagramClick (Some (js ''A''))
        (diagramClick (Some (js ''A''))
           (installListeners \<lparr>app_selectedNodeId = None, app_listenerSelectedNodeId = None\<rparr>)))
   = Some (js ''A'')
   \<and> app_selectedNodeId
     (sidebarClick (Some (js ''A''))
        (sidebarClick (Some (js ''A''))
           (installListeners \<lparr>app_selectedNodeId = None, app_listenerSelectedNodeId = None\<rparr>)))
   = None"
  by (simp add: diagramClick_def sidebarClick_def installListeners_def handleNodeToggle_def
        js_def)

end
